theory Spec2Isabelle
  imports Main "HOL-Library.Sublist" "HOL-Library.AList"
begin

section \<open>JavaScript strings and values\<close>

text \<open>
  Strings are byte lists (UTF-8). Searching for an ASCII needle in UTF-8 text finds the
  same occurrences as searching the UTF-16 string, because no ASCII byte occurs inside a
  multi-byte sequence. \<open>toLowerCase\<close> and \<open>trim\<close> are modelled on the ASCII range;
  bytes above 0x7F are left alone.
\<close>

abbreviation LF :: char where
  "LF \<equiv> CHR 0x0A"

fun startsWith :: "string \<Rightarrow> string \<Rightarrow> bool" where
  "startsWith s [] = True"
| "startsWith [] (p # ps) = False"
| "startsWith (c # cs) (p # ps) = (c = p \<and> startsWith cs ps)"

text \<open>\<open>s.indexOf(sub)\<close>: the first position where \<open>sub\<close> occurs, \<open>None\<close> for -1.\<close>

fun indexOf :: "string \<Rightarrow> string \<Rightarrow> nat option" where
  "indexOf [] sub = (if sub = [] then Some 0 else None)"
| "indexOf (c # cs) sub =
     (if startsWith (c # cs) sub then Some 0 else map_option Suc (indexOf cs sub))"

definition includes_str :: "string \<Rightarrow> string \<Rightarrow> bool" where
  "includes_str s sub = (indexOf s sub \<noteq> None)"

definition toLowerChar :: "char \<Rightarrow> char" where
  "toLowerChar c =
     (case map_of (zip ''ABCDEFGHIJKLMNOPQRSTUVWXYZ'' ''abcdefghijklmnopqrstuvwxyz'') c of
        Some l \<Rightarrow> l
      | None \<Rightarrow> c)"

definition toLowerCase :: "string \<Rightarrow> string" where
  "toLowerCase s = map toLowerChar s"

text \<open>\<open>xs.join(sep)\<close> on strings.\<close>

fun join_with :: "string \<Rightarrow> string list \<Rightarrow> string" where
  "join_with sep [] = []"
| "join_with sep [x] = x"
| "join_with sep (x # y # ys) = x @ sep @ join_with sep (y # ys)"

text \<open>
  \<open>s.split(sep)\<close> for a non-empty separator: cut at the first occurrence, continue
  after it. With the empty separator JavaScript cuts between all code units.
\<close>

function split_str :: "string \<Rightarrow> string \<Rightarrow> string list" where
  "split_str sep s =
     (if sep = [] then map (\<lambda>c. [c]) s
      else (case indexOf s sep of
              None \<Rightarrow> [s]
            | Some i \<Rightarrow> take i s # split_str sep (drop (i + length sep) s)))"
  by pat_completeness auto

termination split_str
proof (relation "measure (\<lambda>(sep, s). length s)")
  show "wf (measure (\<lambda>(sep, s). length s))"
    by simp
next
  fix sep s :: string and i :: nat
  assume "sep \<noteq> []" and "indexOf s sep = Some i"
  then have "s \<noteq> []"
    by (cases s) auto
  with \<open>sep \<noteq> []\<close> show "((sep, drop (i + length sep) s), (sep, s)) \<in> measure (\<lambda>(sep, s). length s)"
    by (cases sep) auto
qed

declare split_str.simps [simp del]

text \<open>Decimal rendering of a number, as \<open>String(n)\<close> gives it for an integer below 10^21.\<close>

fun show_nat :: "nat \<Rightarrow> string" where
  "show_nat n =
     (if n < 10 then [''0123456789'' ! n]
      else show_nat (n div 10) @ [''0123456789'' ! (n mod 10)])"

declare show_nat.simps [simp del]

text \<open>
  A JavaScript value as the code meets it: a JSON value, or \<open>undefined\<close> (what reading an
  absent property gives). Numbers are integers; an object is its list of own properties.
\<close>

datatype json =
    JUndefined
  | JNull
  | JBool bool
  | JNum int
  | JStr string
  | JArr "json list"
  | JObj "(string \<times> json) list"

text \<open>Truthiness: what \<open>if (v)\<close>, \<open>!v\<close>, \<open>a || b\<close> and \<open>a && b\<close> test.\<close>

fun truthy :: "json \<Rightarrow> bool" where
  "truthy JUndefined = False"
| "truthy JNull = False"
| "truthy (JBool b) = b"
| "truthy (JNum n) = (n \<noteq> 0)"
| "truthy (JStr s) = (s \<noteq> [])"
| "truthy (JArr xs) = True"
| "truthy (JObj kvs) = True"

text \<open>\<open>a || b\<close> on values.\<close>

definition or_else :: "json \<Rightarrow> json \<Rightarrow> json" where
  "or_else a b = (if truthy a then a else b)"

text \<open>
  \<open>v.k\<close> for one of the property names the code reads. None of them is an inherited
  property of a string, a number, an array or a plain object, so reading it from anything
  but an object that owns it gives \<open>undefined\<close>. The callers guard the reads that would
  throw on \<open>null\<close> and \<open>undefined\<close>; where they do not, the model says so.
\<close>

fun field :: "json \<Rightarrow> string \<Rightarrow> json" where
  "field (JObj kvs) k = (case map_of kvs k of Some v \<Rightarrow> v | None \<Rightarrow> JUndefined)"
| "field v k = JUndefined"

text \<open>\<open>String(v)\<close>, the coercion of \<open>+=\<close>, template literals and \<open>join\<close>.\<close>

fun js_to_string :: "json \<Rightarrow> string" where
  "js_to_string JUndefined = ''undefined''"
| "js_to_string JNull = ''null''"
| "js_to_string (JBool b) = (if b then ''true'' else ''false'')"
| "js_to_string (JNum n) = (if n < 0 then ''-'' @ show_nat (nat (- n)) else show_nat (nat n))"
| "js_to_string (JStr s) = s"
| "js_to_string (JArr xs) =
     join_with '','' (map (\<lambda>x. if x = JUndefined \<or> x = JNull then [] else js_to_string x) xs)"
| "js_to_string (JObj kvs) = ''[object Object]''"

text \<open>\<open>xs.join(sep)\<close> on values: \<open>null\<close> and \<open>undefined\<close> elements render as the empty string.\<close>

definition join_values :: "string \<Rightarrow> json list \<Rightarrow> string" where
  "join_values sep xs =
     join_with sep (map (\<lambda>x. if x = JUndefined \<or> x = JNull then [] else js_to_string x) xs)"

text \<open>
  The built-in \<open>JSON\<close> object, taken as given: \<open>parse\<close> (\<open>None\<close> when it throws a
  SyntaxError), \<open>stringify(v)\<close> and \<open>stringify(v, null, 2)\<close>.
\<close>

record JSON =
  json_parse :: "string \<Rightarrow> json option"
  json_stringify :: "json \<Rightarrow> string"
  json_stringify_indent :: "json \<Rightarrow> string"

section \<open>mcp/tools.ts: tool results as messages\<close>

datatype message_content =
    TextContent string
  | BlockContent "json list"

record tool_fields =
  tm_content :: message_content
  tm_tool_call_id :: "string option"
  tm_name :: string
  tm_error :: bool
  tm_hitl_rejected :: bool

record ToolCall =
  tc_name :: string
  tc_args :: json
  tc_id :: "string option"

record ai_fields =
  ai_id :: "string option"
  ai_content :: message_content
  ai_tool_calls :: "ToolCall list"
  ai_reasoning_content :: "string option"

datatype message =
    SystemMessage message_content
  | HumanMessage message_content
  | AIMessage ai_fields
  | ToolMessage tool_fields

text \<open>What the callback of \<open>result.content.map\<close> returns for an item whose \<open>type\<close> it can read.\<close>

definition item_rendering :: "JSON \<Rightarrow> json \<Rightarrow> json" where
  "item_rendering J item =
     (if field item ''type'' = JStr ''text'' then field item ''text''
      else if field item ''type'' = JStr ''image'' then
        JStr (''[Image: '' @ js_to_string (or_else (field item ''mimeType'') (JStr ''unknown'')) @ '']'')
      else if field item ''type'' = JStr ''resource'' then
        JStr (''[Resource: '' @ js_to_string (or_else (field item ''uri'') (JStr ''unknown'')) @ '']'')
      else JStr (json_stringify J item))"

text \<open>
  The callback itself: reading \<open>item.type\<close> of \<open>null\<close> or \<open>undefined\<close> throws a
  TypeError (\<open>Inl\<close>, with the engine's message).
\<close>

definition render_item :: "JSON \<Rightarrow> json \<Rightarrow> string + json" where
  "render_item J item =
     (if item = JNull then Inl ''Cannot read properties of null (reading 'type')''
      else if item = JUndefined then Inl ''Cannot read properties of undefined (reading 'type')''
      else Inr (item_rendering J item))"

text \<open>\<open>map\<close> with a callback that may throw: the first throw ends it.\<close>

fun map_items :: "JSON \<Rightarrow> json list \<Rightarrow> string + json list" where
  "map_items J [] = Inr []"
| "map_items J (item # items) =
     (case render_item J item of
        Inl e \<Rightarrow> Inl e
      | Inr r \<Rightarrow> (case map_items J items of Inl e \<Rightarrow> Inl e | Inr rs \<Rightarrow> Inr (r # rs)))"

definition formatToolResult :: "JSON \<Rightarrow> json \<Rightarrow> string + string" where
  "formatToolResult J result =
     (if \<not> truthy result then Inr ''Tool executed successfully with no output''
      else (case field result ''content'' of
              JArr items \<Rightarrow>
                (case map_items J items of
                   Inl e \<Rightarrow> Inl e
                 | Inr rs \<Rightarrow> Inr (join_values [LF] rs))
            | _ \<Rightarrow>
                (case result of
                   JStr s \<Rightarrow> Inr s
                 | _ \<Rightarrow> Inr (json_stringify_indent J result))))"

definition createToolMessage :: "JSON \<Rightarrow> json \<Rightarrow> string option \<Rightarrow> string \<Rightarrow> string + tool_fields" where
  "createToolMessage J result toolCallId toolName =
     (case formatToolResult J result of
        Inl e \<Rightarrow> Inl e
      | Inr content \<Rightarrow>
          Inr \<lparr>tm_content = TextContent content, tm_tool_call_id = toolCallId,
               tm_name = toolName, tm_error = False, tm_hitl_rejected = False\<rparr>)"

definition createErrorToolMessage :: "string \<Rightarrow> string option \<Rightarrow> string \<Rightarrow> tool_fields" where
  "createErrorToolMessage error_message toolCallId toolName =
     \<lparr>tm_content = TextContent (''Error executing tool: '' @ error_message),
      tm_tool_call_id = toolCallId, tm_name = toolName, tm_error = True,
      tm_hitl_rejected = False\<rparr>"

section \<open>mcp/client.ts: the connected tool servers\<close>

text \<open>
  \<open>mcpClients\<close>, the module's list of connected servers. The SDK client is taken as
  given: \<open>listTools\<close> and \<open>callTool\<close> either return or throw (\<open>Inl\<close>, with the
  thrown error's message).
\<close>

record mcp_tool =
  tool_name :: string
  tool_description :: json
  tool_inputSchema :: json

record MCPClientInstance =
  serverName :: string
  listTools :: "string + mcp_tool list"
  callTool :: "string \<Rightarrow> json \<Rightarrow> string + json"

record OpenAITool =
  fn_name :: string
  fn_description :: json
  fn_parameters :: json

definition advertise :: "string \<Rightarrow> mcp_tool \<Rightarrow> OpenAITool" where
  "advertise server tool =
     \<lparr>fn_name = server @ ''__'' @ tool_name tool,
      fn_description = or_else (tool_description tool) (JStr []),
      fn_parameters =
        or_else (tool_inputSchema tool)
          (JObj [(''type'', JStr ''object''), (''properties'', JObj [])])\<rparr>"

text \<open>\<open>getMCPTools\<close> once the clients are initialised: a server whose listing throws is skipped.\<close>

fun getMCPTools :: "MCPClientInstance list \<Rightarrow> OpenAITool list" where
  "getMCPTools [] = []"
| "getMCPTools (c # cs) =
     (case listTools c of
        Inl e \<Rightarrow> getMCPTools cs
      | Inr tools \<Rightarrow> map (advertise (serverName c)) tools @ getMCPTools cs)"

text \<open>
  \<open>executeMCPTool\<close>. The first component lists the \<open>callTool\<close> requests made: server,
  tool name, arguments.
\<close>

definition executeMCPTool ::
  "MCPClientInstance list \<Rightarrow> string \<Rightarrow> json \<Rightarrow> (string \<times> string \<times> json) list \<times> (string + json)" where
  "executeMCPTool mcpClients toolName args =
     (let parts = split_str ''__'' toolName in
      if length parts \<noteq> 2 then ([], Inl (''Invalid tool name format: '' @ toolName))
      else
        (let server = parts ! 0; actualToolName = parts ! 1 in
         case find (\<lambda>c. serverName c = server) mcpClients of
           None \<Rightarrow> ([], Inl (''MCP server not found: '' @ server))
         | Some clientInstance \<Rightarrow>
             ([(server, actualToolName, args)],
              (case callTool clientInstance actualToolName args of
                 Inl e \<Rightarrow> Inl (''Tool execution failed: '' @ e)
               | Inr result \<Rightarrow> Inr result))))"

section \<open>models/anthropic.ts: the event stream\<close>

record frame =
  frame_event :: string
  frame_data :: string

definition is_space :: "char \<Rightarrow> bool" where
  "is_space c = (c \<in> set [CHR 0x09, CHR 0x0A, CHR 0x0B, CHR 0x0C, CHR 0x0D, CHR 0x20])"

definition trim :: "string \<Rightarrow> string" where
  "trim s = rev (dropWhile is_space (rev (dropWhile is_space s)))"

text \<open>The \<open>for\<close> loop of \<open>parseEventPayload\<close> over the lines of a chunk.\<close>

fun scan_lines :: "string list \<Rightarrow> string \<Rightarrow> string list \<Rightarrow> string \<times> string list" where
  "scan_lines [] event dataLines = (event, dataLines)"
| "scan_lines (line # rest) event dataLines =
     (if startsWith line ''event:'' then scan_lines rest (trim (drop 6 line)) dataLines
      else if startsWith line ''data:'' then scan_lines rest event (dataLines @ [trim (drop 5 line)])
      else scan_lines rest event dataLines)"

definition parseEventPayload :: "string \<Rightarrow> frame option" where
  "parseEventPayload raw =
     (case scan_lines (split_str [LF] raw) ''message'' [] of
        (event, dataLines) \<Rightarrow>
          (let data = join_with [LF] dataLines in
           if data = [] then None else Some \<lparr>frame_event = event, frame_data = data\<rparr>))"

definition safeJsonParse :: "JSON \<Rightarrow> string \<Rightarrow> json option" where
  "safeJsonParse J v = json_parse J v"

definition parseToolArgs :: "JSON \<Rightarrow> string \<Rightarrow> json" where
  "parseToolArgs J input =
     (if input = [] then JObj []
      else (case safeJsonParse J input of
              Some parsed \<Rightarrow> if truthy parsed then parsed else JObj []
            | None \<Rightarrow> JObj []))"

definition getToolInputString :: "JSON \<Rightarrow> json \<Rightarrow> string" where
  "getToolInputString J input =
     (if \<not> truthy input then []
      else (case input of
              JStr s \<Rightarrow> s
            | JObj kvs \<Rightarrow> if kvs = [] then [] else json_stringify J input
            | _ \<Rightarrow> []))"

record ToolCallState =
  tcs_id :: string
  tcs_name :: string
  tcs_input :: string

record notification =
  n_type :: string
  n_message_id :: string
  n_content :: json

text \<open>
  The variables of one call of \<open>generateWithAnthropic\<close>. \<open>toolCallsMap\<close> lists the
  object's own properties in insertion order; its keys are the stream indices.
  \<open>emitted\<close> is what the writer has been called with so far.
\<close>

record stream_state =
  reasoningContent :: string
  textContent :: string
  toolCallsMap :: "(int \<times> ToolCallState) list"
  emitted :: "notification list"

text \<open>
  What leaves the function other than a message: a thrown \<open>Error\<close> with its message, or
  \<open>IllTyped\<close>, which marks a payload the model does not follow further: a tool frame
  whose \<open>index\<close> is not a number, or whose \<open>id\<close> or \<open>name\<close> is neither a string nor
  falsy. The source declares them \<open>number\<close> and \<open>string\<close> (\<open>ToolCallState\<close>,
  \<open>Record<number, ToolCallState>\<close>) and casts without a check.
\<close>

datatype failure =
    Error string
  | IllTyped

definition emit :: "bool \<Rightarrow> string \<Rightarrow> string \<Rightarrow> json \<Rightarrow> stream_state \<Rightarrow> stream_state" where
  "emit writer messageId kind content st =
     (if writer
      then st\<lparr>emitted := emitted st @ [\<lparr>n_type = kind, n_message_id = messageId, n_content = content\<rparr>]\<rparr>
      else st)"

text \<open>\<open>x || ""\<close> read at the declared type \<open>string\<close>.\<close>

definition string_or_empty :: "json \<Rightarrow> string option" where
  "string_or_empty v =
     (if \<not> truthy v then Some [] else (case v of JStr s \<Rightarrow> Some s | _ \<Rightarrow> None))"

definition on_content_block_start ::
  "JSON \<Rightarrow> bool \<Rightarrow> string \<Rightarrow> json \<Rightarrow> stream_state \<Rightarrow> failure + stream_state" where
  "on_content_block_start J writer messageId payload st =
     (let block = or_else (field payload ''content_block'') (JObj []);
          index = field payload ''index'' in
      if field block ''type'' = JStr ''text'' \<and> truthy (field block ''text'') then
        Inr (emit writer messageId ''content_chunk'' (field block ''text'')
               (st\<lparr>textContent := textContent st @ js_to_string (field block ''text'')\<rparr>))
      else if (field block ''type'' = JStr ''thinking'' \<or> field block ''type'' = JStr ''redacted_thinking'')
              \<and> (truthy (field block ''thinking'') \<or> truthy (field block ''text'')) then
        (let thinkingText = or_else (field block ''thinking'') (or_else (field block ''text'') (JStr [])) in
         Inr (emit writer messageId ''reasoning_chunk'' thinkingText
                (st\<lparr>reasoningContent := reasoningContent st @ js_to_string thinkingText\<rparr>)))
      else if field block ''type'' = JStr ''tool_use'' then
        (case (index, string_or_empty (field block ''id''), string_or_empty (field block ''name'')) of
           (JNum i, Some tid, Some tname) \<Rightarrow>
             Inr (st\<lparr>toolCallsMap :=
                    AList.update i
                      \<lparr>tcs_id = tid, tcs_name = tname,
                       tcs_input = getToolInputString J (field block ''input'')\<rparr>
                      (toolCallsMap st)\<rparr>)
         | _ \<Rightarrow> Inl IllTyped)
      else Inr st)"

definition on_content_block_delta ::
  "bool \<Rightarrow> string \<Rightarrow> json \<Rightarrow> stream_state \<Rightarrow> failure + stream_state" where
  "on_content_block_delta writer messageId payload st =
     (let index = field payload ''index'';
          delta = or_else (field payload ''delta'') (JObj []) in
      if field delta ''type'' = JStr ''text_delta'' \<and> truthy (field delta ''text'') then
        Inr (emit writer messageId ''content_chunk'' (field delta ''text'')
               (st\<lparr>textContent := textContent st @ js_to_string (field delta ''text'')\<rparr>))
      else if (field delta ''type'' = JStr ''thinking_delta''
               \<or> field delta ''type'' = JStr ''redacted_thinking_delta'')
              \<and> (truthy (field delta ''thinking'') \<or> truthy (field delta ''text'')) then
        (let thinkingText = or_else (field delta ''thinking'') (or_else (field delta ''text'') (JStr [])) in
         Inr (emit writer messageId ''reasoning_chunk'' thinkingText
                (st\<lparr>reasoningContent := reasoningContent st @ js_to_string thinkingText\<rparr>)))
      else if field delta ''type'' = JStr ''input_json_delta'' \<and> truthy (field delta ''partial_json'') then
        (case index of
           JNum i \<Rightarrow>
             (let m = (case map_of (toolCallsMap st) i of
                         None \<Rightarrow> AList.update i \<lparr>tcs_id = [], tcs_name = [], tcs_input = []\<rparr> (toolCallsMap st)
                       | Some tc \<Rightarrow> toolCallsMap st) in
              Inr (st\<lparr>toolCallsMap :=
                     AList.map_entry i
                       (\<lambda>tc. tc\<lparr>tcs_input := tcs_input tc @ js_to_string (field delta ''partial_json'')\<rparr>) m\<rparr>))
         | _ \<Rightarrow> Inl IllTyped)
      else Inr st)"

text \<open>\<open>payload.error?.message || payload.message || "Unknown streaming error"\<close>.\<close>

definition errorMessage :: "json \<Rightarrow> json" where
  "errorMessage payload =
     or_else
       (if field payload ''error'' = JNull \<or> field payload ''error'' = JUndefined then JUndefined
        else field (field payload ''error'') ''message'')
       (or_else (field payload ''message'') (JStr ''Unknown streaming error''))"

text \<open>
  The body of the inner loop for one chunk, from \<open>parseEventPayload\<close> on. A throw
  carries the notifications already emitted: the writer has been called, whatever
  happens next.
\<close>

definition handle_payload ::
  "JSON \<Rightarrow> bool \<Rightarrow> string \<Rightarrow> string \<Rightarrow> json \<Rightarrow> stream_state \<Rightarrow> failure + stream_state" where
  "handle_payload J writer messageId event payload st =
     (if event = ''error'' then Inl (Error (js_to_string (errorMessage payload)))
      else
        (case (if event = ''content_block_start''
               then on_content_block_start J writer messageId payload st else Inr st) of
           Inl e \<Rightarrow> Inl e
         | Inr st' \<Rightarrow>
             (if event = ''content_block_delta''
              then on_content_block_delta writer messageId payload st' else Inr st')))"

definition handle_chunk ::
  "JSON \<Rightarrow> bool \<Rightarrow> string \<Rightarrow> string \<Rightarrow> stream_state \<Rightarrow> (failure \<times> notification list) + stream_state" where
  "handle_chunk J writer messageId chunk st =
     (case parseEventPayload chunk of
        None \<Rightarrow> Inr st
      | Some parsed \<Rightarrow>
          if frame_data parsed = ''[DONE]'' then Inr st
          else (case safeJsonParse J (frame_data parsed) of
                  None \<Rightarrow> Inr st
                | Some payload \<Rightarrow>
                    if \<not> truthy payload then Inr st
                    else (case handle_payload J writer messageId (frame_event parsed) payload st of
                            Inl e \<Rightarrow> Inl (e, emitted st)
                          | Inr st' \<Rightarrow> Inr st')))"

text \<open>
  The inner \<open>while (true)\<close>: cut the buffer at each blank line and hand the chunk before
  it to the loop body \<open>h\<close>; stop when no blank line is left.
\<close>

function drain :: "(string \<Rightarrow> 's \<Rightarrow> 'e + 's) \<Rightarrow> string \<Rightarrow> 's \<Rightarrow> 'e + (string \<times> 's)" where
  "drain h buffer s =
     (case indexOf buffer [LF, LF] of
        None \<Rightarrow> Inr (buffer, s)
      | Some boundaryIndex \<Rightarrow>
          (case h (take boundaryIndex buffer) s of
             Inl e \<Rightarrow> Inl e
           | Inr s' \<Rightarrow> drain h (drop (boundaryIndex + 2) buffer) s'))"
  by pat_completeness auto

termination drain
proof (relation "measure (\<lambda>(h, buffer, s). length buffer)")
  show "wf (measure (\<lambda>(h, buffer, s). length buffer))"
    by simp
next
  fix h :: "string \<Rightarrow> 's \<Rightarrow> 'e + 's" and buffer :: string and s s' :: 's and boundaryIndex :: nat
  assume "indexOf buffer [LF, LF] = Some boundaryIndex"
  then have "buffer \<noteq> []"
    by (cases buffer) auto
  then show "((h, drop (boundaryIndex + 2) buffer, s'), (h, buffer, s))
               \<in> measure (\<lambda>(h, buffer, s). length buffer)"
    by simp
qed

declare drain.simps [simp del]

text \<open>
  The outer \<open>while (true)\<close>: the reader yields the fragments of the response, then
  \<open>done\<close>. The decoder is in streaming mode, so the fragments are pieces of one text.
\<close>

fun read_all :: "(string \<Rightarrow> 's \<Rightarrow> 'e + 's) \<Rightarrow> string list \<Rightarrow> string \<Rightarrow> 's \<Rightarrow> 'e + (string \<times> 's)" where
  "read_all h [] buffer s = Inr (buffer, s)"
| "read_all h (v # rest) buffer s =
     (case drain h (buffer @ v) s of
        Inl e \<Rightarrow> Inl e
      | Inr (buffer', s') \<Rightarrow> read_all h rest buffer' s')"

text \<open>
  \<open>Object.entries\<close> of an object with integer keys: the array indices (0 to 2^32 - 2)
  first, ascending, then the other keys in insertion order.
\<close>

definition is_array_index :: "int \<Rightarrow> bool" where
  "is_array_index k = (0 \<le> k \<and> k < 4294967295)"

definition object_entries :: "(int \<times> 'v) list \<Rightarrow> (int \<times> 'v) list" where
  "object_entries m =
     sort_key fst (filter (\<lambda>e. is_array_index (fst e)) m) @ filter (\<lambda>e. \<not> is_array_index (fst e)) m"

text \<open>\<open>.sort(([a], [b]) => Number(a) - Number(b))\<close>: a stable sort by the numeric key.\<close>

definition to_tool_call :: "JSON \<Rightarrow> ToolCallState \<Rightarrow> ToolCall" where
  "to_tool_call J tc =
     \<lparr>tc_name = tcs_name tc, tc_args = parseToolArgs J (tcs_input tc), tc_id = Some (tcs_id tc)\<rparr>"

definition formattedToolCalls :: "JSON \<Rightarrow> (int \<times> ToolCallState) list \<Rightarrow> ToolCall list" where
  "formattedToolCalls J m = map (\<lambda>e. to_tool_call J (snd e)) (sort_key fst (object_entries m))"

definition assemble :: "JSON \<Rightarrow> string \<Rightarrow> stream_state \<Rightarrow> ai_fields" where
  "assemble J messageId st =
     \<lparr>ai_id = Some messageId,
      ai_content = TextContent (textContent st),
      ai_tool_calls = formattedToolCalls J (toolCallsMap st),
      ai_reasoning_content = (if reasoningContent st = [] then None else Some (reasoningContent st))\<rparr>"

definition initial_state :: stream_state where
  "initial_state = \<lparr>reasoningContent = [], textContent = [], toolCallsMap = [], emitted = []\<rparr>"

text \<open>
  The provider's answer to the request: a status that is not \<open>ok\<close> with the response
  text, a response without body, or the fragments of the event stream.
\<close>

datatype provider_response =
    HttpFailure nat string
  | EmptyBody
  | EventStream "string list"

datatype gen_result =
    Threw failure "notification list"
  | Returned ai_fields "notification list"

text \<open>
  \<open>generateWithAnthropic\<close>, with the request abstracted to the history and the tools it
  is built from. \<open>writer\<close> says whether \<open>getWriter\<close> gave a writer; \<open>messageId\<close> is the
  identifier generated for this call.
\<close>

definition generateWithAnthropic ::
  "JSON \<Rightarrow> bool \<Rightarrow> string \<Rightarrow> (message list \<Rightarrow> OpenAITool list \<Rightarrow> provider_response)
     \<Rightarrow> message list \<Rightarrow> OpenAITool list \<Rightarrow> gen_result" where
  "generateWithAnthropic J writer messageId provider messages tools =
     (case provider messages tools of
        HttpFailure status errorText \<Rightarrow>
          Threw (Error (''Anthropic request failed: '' @ show_nat status @ '' '' @ errorText)) []
      | EmptyBody \<Rightarrow> Threw (Error ''Anthropic response body is empty'') []
      | EventStream fragments \<Rightarrow>
          (case read_all (handle_chunk J writer messageId) fragments [] initial_state of
             Inl (e, notes) \<Rightarrow> Threw e notes
           | Inr (buffer, st) \<Rightarrow> Returned (assemble J messageId st) (emitted st)))"

text \<open>The frame decoder alone: the loops with a body that only records each decoded frame.\<close>

definition record_frame :: "string \<Rightarrow> frame list \<Rightarrow> unit + frame list" where
  "record_frame chunk frames =
     (case parseEventPayload chunk of None \<Rightarrow> Inr frames | Some parsed \<Rightarrow> Inr (frames @ [parsed]))"

definition decode_frames :: "string list \<Rightarrow> frame list" where
  "decode_frames fragments =
     (case read_all record_frame fragments [] [] of Inl u \<Rightarrow> [] | Inr (buffer, frames) \<Rightarrow> frames)"

section \<open>index.ts: the conversation graph\<close>

definition HITL_REJECT_MARKER :: string where
  "HITL_REJECT_MARKER = ''[HITL_REJECTED]''"

text \<open>The two tests of \<open>isDeleteWindowTool\<close>, on the lower-cased name.\<close>

definition isDeleteAction :: "string \<Rightarrow> bool" where
  "isDeleteAction normalized = (includes_str normalized ''delete'' \<or> includes_str normalized ''remove'')"

definition isBrowserTarget :: "string \<Rightarrow> bool" where
  "isBrowserTarget normalized = (includes_str normalized ''browser'' \<or> includes_str normalized ''window'')"

definition isDeleteWindowTool :: "string \<Rightarrow> bool" where
  "isDeleteWindowTool name =
     (let normalized = toLowerCase name in
      if \<not> startsWith normalized ''roxybrowser-openapi__'' then False
      else isDeleteAction normalized \<and> isBrowserTarget normalized)"


record action_request =
  ar_name :: string
  ar_args :: json
  ar_description :: string

record review_config =
  rc_action_name :: string
  rc_allowed_decisions :: "string list"

record HITLRequest =
  action_requests :: "action_request list"
  review_configs :: "review_config list"

definition buildDeleteInterrupt :: "string \<Rightarrow> json \<Rightarrow> HITLRequest" where
  "buildDeleteInterrupt name args =
     \<lparr>action_requests =
        [\<lparr>ar_name = name, ar_args = args,
          ar_description =
            ''This action will delete RoxyBrowser window(s). Please confirm before continuing.''\<rparr>],
      review_configs =
        [\<lparr>rc_action_name = name, rc_allowed_decisions = [''approve'', ''reject'']\<rparr>]\<rparr>"

text \<open>\<open>typeof v === "object"\<close>.\<close>

fun typeof_object :: "json \<Rightarrow> bool" where
  "typeof_object JNull = True"
| "typeof_object (JArr xs) = True"
| "typeof_object (JObj kvs) = True"
| "typeof_object v = False"

text \<open>\<open>getDecision\<close>: the first decision of the resume value, \<open>undefined\<close> when there is none.\<close>

definition getDecision :: "json \<Rightarrow> json" where
  "getDecision resumeValue =
     (if \<not> truthy resumeValue \<or> \<not> typeof_object resumeValue then JUndefined
      else (case field resumeValue ''decisions'' of
              JArr (d # ds) \<Rightarrow> d
            | _ \<Rightarrow> JUndefined))"

definition createRejectionToolMessage :: "string option \<Rightarrow> string \<Rightarrow> tool_fields" where
  "createRejectionToolMessage toolCallId toolName =
     \<lparr>tm_content = TextContent (HITL_REJECT_MARKER @ '' User rejected deletion request.''),
      tm_tool_call_id = toolCallId, tm_name = toolName, tm_error = True,
      tm_hitl_rejected = True\<rparr>"

text \<open>\<open>state.messages[state.messages.length - 1]\<close>.\<close>

definition last_message :: "message list \<Rightarrow> message option" where
  "last_message messages = (if messages = [] then None else Some (last messages))"



text \<open>\<open>(message as { tool_call_id?: string }).tool_call_id\<close>: only a tool message has one.\<close>

definition message_tool_call_id :: "message \<Rightarrow> string option" where
  "message_tool_call_id m = (case m of ToolMessage t \<Rightarrow> tm_tool_call_id t | _ \<Rightarrow> None)"

definition truthy_id :: "string option \<Rightarrow> bool" where
  "truthy_id i = (case i of Some s \<Rightarrow> s \<noteq> [] | None \<Rightarrow> False)"

definition toolMessageIds :: "message list \<Rightarrow> string set" where
  "toolMessageIds messages =
     set (map (\<lambda>m. the (message_tool_call_id m))
            (filter (\<lambda>m. truthy_id (message_tool_call_id m)) messages))"

text \<open>The replay guard: \<open>toolCall.id && toolMessageIds.has(toolCall.id)\<close>.\<close>

definition already_answered :: "string set \<Rightarrow> ToolCall \<Rightarrow> bool" where
  "already_answered ids toolCall = (truthy_id (tc_id toolCall) \<and> the (tc_id toolCall) \<in> ids)"

text \<open>The \<open>try\<close> block of the loop: dispatch, and turn the result or the error into a message.\<close>

definition run_tool :: "JSON \<Rightarrow> MCPClientInstance list \<Rightarrow> ToolCall \<Rightarrow> json \<Rightarrow> tool_fields" where
  "run_tool J mcpClients toolCall args =
     (case snd (executeMCPTool mcpClients (tc_name toolCall) args) of
        Inl e \<Rightarrow> createErrorToolMessage e (tc_id toolCall) (tc_name toolCall)
      | Inr result \<Rightarrow>
          (case createToolMessage J result (tc_id toolCall) (tc_name toolCall) of
             Inl e \<Rightarrow> createErrorToolMessage e (tc_id toolCall) (tc_name toolCall)
           | Inr m \<Rightarrow> m))"

text \<open>\<open>decision.edited_action?.args\<close>.\<close>

definition edited_args :: "json \<Rightarrow> json" where
  "edited_args decision =
     (if field decision ''edited_action'' = JNull \<or> field decision ''edited_action'' = JUndefined
      then JUndefined
      else field (field decision ''edited_action'') ''args'')"

text \<open>\<open>!decision || decision.type === "reject"\<close>.\<close>

definition rejects :: "json \<Rightarrow> bool" where
  "rejects decision = (\<not> truthy decision \<or> field decision ''type'' = JStr ''reject'')"

text \<open>
  How the \<open>tools\<close> node ends: it returns its tool messages, it is suspended by
  \<open>interrupt\<close> with a request, or it throws. Each dispatch is logged with the id of the
  tool call and the name and arguments passed to \<open>executeMCPTool\<close>.
\<close>

datatype tools_result =
    Completed "tool_fields list"
  | Interrupted HITLRequest
  | TypeError string

type_synonym dispatch = "string option \<times> string \<times> json"

text \<open>
  The \<open>for\<close> loop of \<open>tools\<close>. \<open>resumes\<close> are the resume values the engine holds for
  this run of the node: \<open>interrupt\<close> returns them in call order, and the first call
  without one raises the interrupt that suspends the node.
\<close>

fun tools_loop ::
  "JSON \<Rightarrow> MCPClientInstance list \<Rightarrow> string set \<Rightarrow> ToolCall list \<Rightarrow> json list
     \<Rightarrow> tool_fields list \<Rightarrow> dispatch list \<Rightarrow> dispatch list \<times> tools_result" where
  "tools_loop J mcpClients ids [] resumes toolMessages log = (log, Completed toolMessages)"
| "tools_loop J mcpClients ids (toolCall # rest) resumes toolMessages log =
     (if already_answered ids toolCall then tools_loop J mcpClients ids rest resumes toolMessages log
      else if isDeleteWindowTool (tc_name toolCall) then
        (case resumes of
           [] \<Rightarrow> (log, Interrupted (buildDeleteInterrupt (tc_name toolCall) (tc_args toolCall)))
         | resumeValue # resumes' \<Rightarrow>
             (let decision = getDecision resumeValue in
              if rejects decision then
                (log, Completed (toolMessages @ [createRejectionToolMessage (tc_id toolCall) (tc_name toolCall)]))
              else
                (let args = (if field decision ''type'' = JStr ''edit'' \<and> truthy (edited_args decision)
                             then edited_args decision else tc_args toolCall) in
                 tools_loop J mcpClients ids rest resumes'
                   (toolMessages @ [run_tool J mcpClients toolCall args])
                   (log @ [(tc_id toolCall, tc_name toolCall, args)]))))
      else
        tools_loop J mcpClients ids rest resumes
          (toolMessages @ [run_tool J mcpClients toolCall (tc_args toolCall)])
          (log @ [(tc_id toolCall, tc_name toolCall, tc_args toolCall)]))"

text \<open>\<open>lastMessage.tool_calls || []\<close>: only an assistant message has tool calls.\<close>

definition tool_calls_of :: "message \<Rightarrow> ToolCall list" where
  "tool_calls_of m = (case m of AIMessage a \<Rightarrow> ai_tool_calls a | _ \<Rightarrow> [])"

definition tools ::
  "JSON \<Rightarrow> MCPClientInstance list \<Rightarrow> json list \<Rightarrow> message list \<Rightarrow> dispatch list \<times> tools_result" where
  "tools J mcpClients resumes messages =
     (case last_message messages of
        None \<Rightarrow> ([], TypeError ''Cannot read properties of undefined (reading 'tool_calls')'')
      | Some lastMessage \<Rightarrow>
          tools_loop J mcpClients (toolMessageIds messages) (tool_calls_of lastMessage) resumes [] [])"

text \<open>The calls of the last message that the replay guard lets through.\<close>

definition pending_calls :: "message list \<Rightarrow> ToolCall list" where
  "pending_calls messages =
     (case last_message messages of
        None \<Rightarrow> []
      | Some lastMessage \<Rightarrow>
          filter (\<lambda>tc. \<not> already_answered (toolMessageIds messages) tc) (tool_calls_of lastMessage))"

text \<open>What identifies a tool call in a dispatch, in a tool message and in the call itself.\<close>

definition dispatch_of :: "ToolCall \<Rightarrow> dispatch" where
  "dispatch_of tc = (tc_id tc, tc_name tc, tc_args tc)"

definition call_key :: "ToolCall \<Rightarrow> string option \<times> string" where
  "call_key tc = (tc_id tc, tc_name tc)"

definition dispatch_key :: "dispatch \<Rightarrow> string option \<times> string" where
  "dispatch_key d = (fst d, fst (snd d))"

definition message_key :: "tool_fields \<Rightarrow> string option \<times> string" where
  "message_key m = (tm_tool_call_id m, tm_name m)"

text \<open>
  The declared type \<open>Decision\<close>: \<open>{type: "approve"}\<close>, \<open>{type: "reject"; message?: string}\<close>
  or \<open>{type: "edit"; edited_action: {name: string; args: Record<string, unknown>}}\<close>.
\<close>

fun is_string :: "json \<Rightarrow> bool" where
  "is_string (JStr s) = True"
| "is_string v = False"


fun is_array :: "json \<Rightarrow> bool" where
  "is_array (JArr xs) = True"
| "is_array v = False"


section \<open>Values for the examples\<close>

text \<open>
  \<open>JSON.parse\<close> and \<open>JSON.stringify\<close> on the texts and values that the examples below
  hand to them; the examples apply them to nothing else.
\<close>

definition example_start_data :: string where
  \<open>example_start_data =
     ''{"type":"content_block_start","index":2,"content_block":{"type":"tool_use","id":"t1","name":"x__y","input":{}}}''\<close>

definition example_start_payload :: json where
  "example_start_payload =
     JObj [(''type'', JStr ''content_block_start''), (''index'', JNum 2),
           (''content_block'',
            JObj [(''type'', JStr ''tool_use''), (''id'', JStr ''t1''), (''name'', JStr ''x__y''),
                  (''input'', JObj [])])]"

text \<open>The two argument deltas; on the wire the quotes inside \<open>partial_json\<close> are escaped.\<close>

definition example_delta1_data :: string where
  \<open>example_delta1_data =
     ''{"type":"content_block_delta","index":2,"delta":{"type":"input_json_delta","partial_json":"{''
     @ [CHR 0x5C] @ ''"a'' @ [CHR 0x5C] @ ''":1"}}''\<close>

definition example_delta1_payload :: json where
  \<open>example_delta1_payload =
     JObj [(''type'', JStr ''content_block_delta''), (''index'', JNum 2),
           (''delta'', JObj [(''type'', JStr ''input_json_delta''), (''partial_json'', JStr ''{"a":1'')])]\<close>

definition example_delta2_data :: string where
  \<open>example_delta2_data =
     ''{"type":"content_block_delta","index":2,"delta":{"type":"input_json_delta","partial_json":"}"}}''\<close>

definition example_delta2_payload :: json where
  "example_delta2_payload =
     JObj [(''type'', JStr ''content_block_delta''), (''index'', JNum 2),
           (''delta'', JObj [(''type'', JStr ''input_json_delta''), (''partial_json'', JStr ''}'')])]"

definition example_other_start_data :: string where
  \<open>example_other_start_data =
     ''{"type":"content_block_start","index":0,"content_block":{"type":"tool_use","id":"t0","name":"x__z","input":{}}}''\<close>

definition example_other_start_payload :: json where
  "example_other_start_payload =
     JObj [(''type'', JStr ''content_block_start''), (''index'', JNum 0),
           (''content_block'',
            JObj [(''type'', JStr ''tool_use''), (''id'', JStr ''t0''), (''name'', JStr ''x__z''),
                  (''input'', JObj [])])]"

definition example_parse :: "string \<Rightarrow> json option" where
  \<open>example_parse s =
     map_of
       [(''{"a":1}'', JObj [(''a'', JNum 1)]),
        (''{"type":"content_block_delta","index":0,"delta":{"type":"text_delta","text":"Hi"}}'',
         JObj [(''type'', JStr ''content_block_delta''), (''index'', JNum 0),
               (''delta'', JObj [(''type'', JStr ''text_delta''), (''text'', JStr ''Hi'')])]),
        (''{"type":"error","error":{"type":"overloaded_error","message":"Overloaded"}}'',
         JObj [(''type'', JStr ''error''),
               (''error'', JObj [(''type'', JStr ''overloaded_error''), (''message'', JStr ''Overloaded'')])]),
        (example_start_data, example_start_payload),
        (example_delta1_data, example_delta1_payload),
        (example_delta2_data, example_delta2_payload),
        (example_other_start_data, example_other_start_payload)]
       s\<close>

definition example_stringify :: "json \<Rightarrow> string" where
  "example_stringify v = (case map_of [(JObj [], ''{}''), (JNum 5, ''5'')] v of Some s \<Rightarrow> s | None \<Rightarrow> [])"

definition example_JSON :: JSON where
  "example_JSON =
     \<lparr>json_parse = example_parse, json_stringify = example_stringify,
      json_stringify_indent = example_stringify\<rparr>"

text \<open>A connected server that answers every call with the text \<open>deleted\<close>.\<close>

definition example_server :: MCPClientInstance where
  "example_server =
     \<lparr>serverName = ''roxybrowser-openapi'', listTools = Inr [],
      callTool = (\<lambda>n a. Inr (JStr ''deleted''))\<rparr>"

definition example_delete_call :: ToolCall where
  "example_delete_call =
     \<lparr>tc_name = ''roxybrowser-openapi__delete_window'',
      tc_args = JObj [(''id'', JNum 7)], tc_id = Some ''t1''\<rparr>"

definition example_list_call :: ToolCall where
  "example_list_call =
     \<lparr>tc_name = ''roxybrowser-openapi__list_windows'', tc_args = JObj [], tc_id = Some ''t2''\<rparr>"

text \<open>An assistant message that asks for the given tool calls.\<close>

definition asking :: "ToolCall list \<Rightarrow> message" where
  "asking calls =
     AIMessage \<lparr>ai_id = None, ai_content = TextContent [], ai_tool_calls = calls,
                ai_reasoning_content = None\<rparr>"

text \<open>The text of three frames, without the blank line that ends a frame.\<close>

definition example_text_frame :: string where
  \<open>example_text_frame =
     ''event: content_block_delta'' @ [LF]
     @ ''data: {"type":"content_block_delta","index":0,"delta":{"type":"text_delta","text":"Hi"}}''\<close>

definition example_error_frame :: string where
  \<open>example_error_frame =
     ''event: error'' @ [LF]
     @ ''data: {"type":"error","error":{"type":"overloaded_error","message":"Overloaded"}}''\<close>

definition example_unparsable_error_frame :: string where
  "example_unparsable_error_frame = ''event: error'' @ [LF] @ ''data: oops''"








section \<open>Strings: occurrences and splitting\<close>

lemma startsWith_prefix: "startsWith s p \<longleftrightarrow> prefix p s"
  by (induction s p rule: startsWith.induct) auto

lemma startsWith_append: "startsWith s p \<Longrightarrow> startsWith (s @ t) p"
  by (simp add: startsWith_prefix)

lemma indexOf_Some_occurs:
  "indexOf s sub = Some i \<Longrightarrow> i \<le> length s \<and> startsWith (drop i s) sub"
proof (induction s arbitrary: i)
  case Nil
  then show ?case by (auto split: if_splits)
next
  case (Cons c cs)
  then show ?case by (auto split: if_splits)
qed

lemma occurs_indexOf:
  "startsWith (drop j s) sub \<Longrightarrow> j \<le> length s \<Longrightarrow> \<exists>i\<le>j. indexOf s sub = Some i"
proof (induction s arbitrary: j)
  case Nil
  then show ?case by (cases sub) auto
next
  case (Cons c cs)
  show ?case
  proof (cases "startsWith (c # cs) sub")
    case True
    then show ?thesis by simp
  next
    case False
    with Cons.prems obtain j' where j: "j = Suc j'"
      by (cases j) auto
    with Cons.prems have "startsWith (drop j' cs) sub" "j' \<le> length cs"
      by auto
    from Cons.IH[OF this] obtain i where "i \<le> j'" "indexOf cs sub = Some i"
      by blast
    with False j show ?thesis by auto
  qed
qed

lemma indexOf_length:
  "indexOf s sub = Some i \<Longrightarrow> i + length sub \<le> length s"
proof -
  assume a: "indexOf s sub = Some i"
  then have "i \<le> length s" "prefix sub (drop i s)"
    using indexOf_Some_occurs[OF a] by (auto simp: startsWith_prefix)
  then have "length sub \<le> length (drop i s)"
    using prefix_length_le by blast
  with \<open>i \<le> length s\<close> show ?thesis by simp
qed

lemma includes_str_append_left:
  assumes "includes_str t sub"
  shows "includes_str (u @ t) sub"
proof -
  from assms obtain k where k: "indexOf t sub = Some k"
    by (auto simp: includes_str_def)
  then have "k \<le> length t" "startsWith (drop k t) sub"
    using indexOf_Some_occurs by blast+
  then have "startsWith (drop (length u + k) (u @ t)) sub" "length u + k \<le> length (u @ t)"
    by auto
  from occurs_indexOf[OF this] show ?thesis
    by (auto simp: includes_str_def)
qed

lemma split_str_length_ge1: "sep \<noteq> [] \<Longrightarrow> 1 \<le> length (split_str sep s)"
  by (subst split_str.simps) (auto split: option.splits)

lemma split_str_includes:
  assumes "sep \<noteq> []" "includes_str s sep"
  shows "2 \<le> length (split_str sep s)"
proof -
  from assms obtain i where "indexOf s sep = Some i"
    by (auto simp: includes_str_def)
  with assms(1) have "split_str sep s = take i s # split_str sep (drop (i + length sep) s)"
    by (subst split_str.simps) simp
  then show ?thesis
    using split_str_length_ge1[OF assms(1), of "drop (i + length sep) s"] by simp
qed

lemma split_str_separator_then_includes:
  assumes "sep \<noteq> []" "includes_str t sep"
  shows "3 \<le> length (split_str sep (a @ sep @ t))"
proof -
  let ?s = "a @ sep @ t"
  have "startsWith (drop (length a) ?s) sep" "length a \<le> length ?s"
    by (auto simp: startsWith_prefix)
  from occurs_indexOf[OF this] obtain i where i: "i \<le> length a" "indexOf ?s sep = Some i"
    by blast
  have "drop (i + length sep) ?s = drop (i + length sep) (a @ sep) @ t"
    using i(1) by simp
  then have "includes_str (drop (i + length sep) ?s) sep"
    using includes_str_append_left[OF assms(2), of "drop (i + length sep) (a @ sep)"] by metis
  from split_str_includes[OF assms(1) this]
  have "2 \<le> length (split_str sep (drop (i + length sep) ?s))" .
  moreover have "split_str sep ?s = take i ?s # split_str sep (drop (i + length sep) ?s)"
    using i(2) assms(1) by (subst split_str.simps) simp
  ultimately show ?thesis by simp
qed

section \<open>Tool results as text\<close>

lemma map_items_Inr:
  "\<forall>item \<in> set items. item \<noteq> JNull \<and> item \<noteq> JUndefined \<Longrightarrow>
   map_items J items = Inr (map (item_rendering J) items)"
  by (induction items) (auto simp: render_item_def)

lemma map_items_Inl:
  "map_items J items = Inl e \<Longrightarrow> \<exists>item \<in> set items. item = JNull \<or> item = JUndefined"
  by (induction items) (auto simp: render_item_def split: sum.splits if_splits)

text \<open>
  C9, as the code has it. A falsy result (\<open>undefined\<close>, \<open>null\<close>, \<open>false\<close>, 0, the empty
  string) is shown as a fixed text. A truthy result with a \<open>content\<close> array whose items
  are not \<open>null\<close> is shown as the renderings of the items joined with newline: the text of
  a \<open>text\<close> item, \<open>[Image: mimeType]\<close>, \<open>[Resource: uri]\<close>. A non-empty string is shown
  as it is. Any other truthy result is shown as \<open>JSON.stringify(result, null, 2)\<close>.
\<close>

theorem formatToolResult_cases:
  "(\<not> truthy result \<longrightarrow>
      formatToolResult J result = Inr ''Tool executed successfully with no output'')
   \<and> (truthy result \<and> field result ''content'' = JArr items
        \<and> (\<forall>item \<in> set items. item \<noteq> JNull \<and> item \<noteq> JUndefined) \<longrightarrow>
      formatToolResult J result = Inr (join_values [LF] (map (item_rendering J) items)))
   \<and> (s \<noteq> [] \<longrightarrow> formatToolResult J (JStr s) = Inr s)
   \<and> (truthy result \<and> \<not> is_array (field result ''content'') \<and> \<not> is_string result \<longrightarrow>
      formatToolResult J result = Inr (json_stringify_indent J result))
   \<and> (field item ''type'' = JStr ''text'' \<longrightarrow> item_rendering J item = field item ''text'')
   \<and> (field item ''type'' = JStr ''image'' \<and> field item ''mimeType'' = JStr m \<and> m \<noteq> [] \<longrightarrow>
      item_rendering J item = JStr (''[Image: '' @ m @ '']''))
   \<and> (field item ''type'' = JStr ''resource'' \<and> field item ''uri'' = JStr u \<and> u \<noteq> [] \<longrightarrow>
      item_rendering J item = JStr (''[Resource: '' @ u @ '']''))"
proof (intro conjI impI)
  assume "\<not> truthy result"
  then show "formatToolResult J result = Inr ''Tool executed successfully with no output''"
    by (simp add: formatToolResult_def)
next
  assume "truthy result \<and> field result ''content'' = JArr items
        \<and> (\<forall>item \<in> set items. item \<noteq> JNull \<and> item \<noteq> JUndefined)"
  then show "formatToolResult J result = Inr (join_values [LF] (map (item_rendering J) items))"
    by (simp add: formatToolResult_def map_items_Inr)
next
  assume "s \<noteq> []"
  then show "formatToolResult J (JStr s) = Inr s"
    by (simp add: formatToolResult_def)
next
  assume "truthy result \<and> \<not> is_array (field result ''content'') \<and> \<not> is_string result"
  then show "formatToolResult J result = Inr (json_stringify_indent J result)"
    by (cases result; cases "field result ''content''") (simp_all add: formatToolResult_def)
next
  assume "field item ''type'' = JStr ''text''"
  then show "item_rendering J item = field item ''text''"
    by (simp add: item_rendering_def)
next
  assume "field item ''type'' = JStr ''image'' \<and> field item ''mimeType'' = JStr m \<and> m \<noteq> []"
  then show "item_rendering J item = JStr (''[Image: '' @ m @ '']'')"
    by (simp add: item_rendering_def or_else_def)
next
  assume "field item ''type'' = JStr ''resource'' \<and> field item ''uri'' = JStr u \<and> u \<noteq> []"
  then show "item_rendering J item = JStr (''[Resource: '' @ u @ '']'')"
    by (simp add: item_rendering_def or_else_def)
qed

theorem formatToolResult_cases_witness:
  "formatToolResult example_JSON (JNum 0) = Inr ''Tool executed successfully with no output''
   \<and> formatToolResult example_JSON
        (JObj [(''content'', JArr [JObj [(''type'', JStr ''text''), (''text'', JStr ''one'')],
                                   JObj [(''type'', JStr ''image''), (''mimeType'', JStr ''image/png'')]])])
       = Inr (''one'' @ [LF] @ ''[Image: image/png]'')
   \<and> formatToolResult example_JSON (JStr ''done'') = Inr ''done''
   \<and> formatToolResult example_JSON (JNum 5) = Inr ''5''"
proof -
  let ?t = "JObj [(''type'', JStr ''text''), (''text'', JStr ''one'')]"
  let ?i = "JObj [(''type'', JStr ''image''), (''mimeType'', JStr ''image/png'')]"
  let ?r = "JObj [(''content'', JArr [?t, ?i])]"
  have r1: "formatToolResult example_JSON (JNum 0) = Inr ''Tool executed successfully with no output''"
    using formatToolResult_cases[of "JNum 0" example_JSON] by simp
  have i1: "item_rendering example_JSON ?t = JStr ''one''"
    using formatToolResult_cases[where item = ?t and J = example_JSON] by simp
  have i2: "item_rendering example_JSON ?i = JStr ''[Image: image/png]''"
    using formatToolResult_cases[where item = ?i and J = example_JSON and m = "''image/png''"] by simp
  have r2: "formatToolResult example_JSON ?r = Inr (''one'' @ [LF] @ ''[Image: image/png]'')"
    using formatToolResult_cases[where result = ?r and J = example_JSON and items = "[?t, ?i]"] i1 i2
    by (simp add: join_values_def)
  have r3: "formatToolResult example_JSON (JStr ''done'') = Inr ''done''"
    using formatToolResult_cases[where s = "''done''" and J = example_JSON] by simp
  have r4: "formatToolResult example_JSON (JNum 5) = Inr ''5''"
    using formatToolResult_cases[where result = "JNum 5" and J = example_JSON]
    by (simp add: example_JSON_def example_stringify_def)
  from r1 r2 r3 r4 show ?thesis
    by blast
qed

text \<open>
  C9 as stated fails on falsy results: the empty string is not shown as it is, and
  \<open>null\<close> is not serialised.
\<close>

theorem falsy_result_counterexample:
  "formatToolResult example_JSON (JStr []) = Inr ''Tool executed successfully with no output''
   \<and> formatToolResult example_JSON (JStr []) \<noteq> Inr []
   \<and> formatToolResult example_JSON JNull = Inr ''Tool executed successfully with no output''"
  by (simp add: formatToolResult_def)

section \<open>Dispatch by tool name\<close>

lemma advertise_listed:
  "c \<in> set mcpClients \<Longrightarrow> listTools c = Inr ts \<Longrightarrow> t \<in> set ts
     \<Longrightarrow> advertise (serverName c) t \<in> set (getMCPTools mcpClients)"
  by (induction mcpClients) (auto split: sum.splits)

text \<open>
  C10. \<open>executeMCPTool\<close> throws \<open>Invalid tool name format\<close>, with no request to any
  server, for every tool name that does not split on \<open>__\<close> into exactly two parts, and
  \<open>MCP server not found\<close> when the first of two parts names no connected server.
  \<open>getMCPTools\<close> advertises each tool as \<open>serverName__toolName\<close>, so a tool whose own
  name contains \<open>__\<close> is advertised and its advertised name is refused by
  \<open>executeMCPTool\<close>, whatever servers are connected.
\<close>

theorem executeMCPTool_name_format:
  "(length (split_str ''__'' toolName) \<noteq> 2 \<longrightarrow>
      executeMCPTool mcpClients toolName args = ([], Inl (''Invalid tool name format: '' @ toolName)))
   \<and> (split_str ''__'' toolName = [server, tool] \<and> (\<forall>c \<in> set mcpClients. serverName c \<noteq> server) \<longrightarrow>
      executeMCPTool mcpClients toolName args = ([], Inl (''MCP server not found: '' @ server)))
   \<and> (c \<in> set mcpClients \<and> listTools c = Inr ts \<and> t \<in> set ts \<and> includes_str (tool_name t) ''__'' \<longrightarrow>
      advertise (serverName c) t \<in> set (getMCPTools mcpClients)
      \<and> executeMCPTool others (fn_name (advertise (serverName c) t)) args =
          ([], Inl (''Invalid tool name format: '' @ fn_name (advertise (serverName c) t))))"
proof (intro conjI impI)
  assume "length (split_str ''__'' toolName) \<noteq> 2"
  then show "executeMCPTool mcpClients toolName args = ([], Inl (''Invalid tool name format: '' @ toolName))"
    by (simp add: executeMCPTool_def)
next
  assume a: "split_str ''__'' toolName = [server, tool] \<and> (\<forall>c \<in> set mcpClients. serverName c \<noteq> server)"
  then have "find (\<lambda>c. serverName c = server) mcpClients = None"
    by (simp add: find_None_iff)
  with a show "executeMCPTool mcpClients toolName args = ([], Inl (''MCP server not found: '' @ server))"
    by (simp add: executeMCPTool_def)
next
  assume a: "c \<in> set mcpClients \<and> listTools c = Inr ts \<and> t \<in> set ts \<and> includes_str (tool_name t) ''__''"
  then show "advertise (serverName c) t \<in> set (getMCPTools mcpClients)"
    using advertise_listed by blast
  have "3 \<le> length (split_str ''__'' (serverName c @ ''__'' @ tool_name t))"
    using a by (intro split_str_separator_then_includes) auto
  then show "executeMCPTool others (fn_name (advertise (serverName c) t)) args =
          ([], Inl (''Invalid tool name format: '' @ fn_name (advertise (serverName c) t)))"
    by (simp add: executeMCPTool_def advertise_def)
qed

theorem executeMCPTool_name_format_witness:
  "length (split_str ''__'' ''nounderscore'') = 1
   \<and> executeMCPTool [] ''nounderscore'' JNull = ([], Inl ''Invalid tool name format: nounderscore'')
   \<and> split_str ''__'' ''srv__tool'' = [''srv'', ''tool'']
   \<and> executeMCPTool [] ''srv__tool'' JNull = ([], Inl ''MCP server not found: srv'')
   \<and> includes_str ''a__b'' ''__''
   \<and> fn_name (advertise ''srv'' \<lparr>tool_name = ''a__b'', tool_description = JNull, tool_inputSchema = JNull\<rparr>)
       = ''srv__a__b''
   \<and> executeMCPTool
        [\<lparr>serverName = ''srv'',
          listTools = Inr [\<lparr>tool_name = ''a__b'', tool_description = JNull, tool_inputSchema = JNull\<rparr>],
          callTool = (\<lambda>n a. Inr JNull)\<rparr>] ''srv__a__b'' JNull
       = ([], Inl ''Invalid tool name format: srv__a__b'')"
proof -
  define t where "t = \<lparr>tool_name = ''a__b'', tool_description = JNull, tool_inputSchema = JNull\<rparr>"
  define c where "c = \<lparr>serverName = ''srv'', listTools = Inr [t], callTool = (\<lambda>n a. Inr JNull)\<rparr>"
  have h1: "length (split_str ''__'' ''nounderscore'') = 1"
    by (simp add: split_str.simps)
  have h2: "split_str ''__'' ''srv__tool'' = [''srv'', ''tool'']"
    by (simp add: split_str.simps)
  have h3: "includes_str (tool_name t) ''__''"
    by (simp add: t_def includes_str_def)
  have h4: "c \<in> set [c] \<and> listTools c = Inr [t] \<and> t \<in> set [t]"
    by (simp add: c_def)
  have n: "fn_name (advertise ''srv'' t) = ''srv__a__b''" "serverName c = ''srv''"
    by (simp_all add: advertise_def t_def c_def)
  from executeMCPTool_name_format [of "''nounderscore''" "[]" JNull] h1
  have r1: "executeMCPTool [] ''nounderscore'' JNull = ([], Inl ''Invalid tool name format: nounderscore'')"
    by simp
  from executeMCPTool_name_format [of "''srv__tool''" "[]" JNull "''srv''" "''tool''"] h2
  have r2: "executeMCPTool [] ''srv__tool'' JNull = ([], Inl ''MCP server not found: srv'')"
    by simp
  from executeMCPTool_name_format [of _ "[c]" JNull _ _ c "[t]" t "[c]"] h3 h4
  have r3: "executeMCPTool [c] ''srv__a__b'' JNull = ([], Inl ''Invalid tool name format: srv__a__b'')"
    by (simp add: n)
  from h1 h2 h3 n r1 r2 r3 show ?thesis
    by (simp add: t_def c_def)
qed

section \<open>The tools node\<close>

lemma includes_str_append_right:
  assumes "includes_str s sub"
  shows "includes_str (s @ t) sub"
proof -
  from assms obtain k where k: "indexOf s sub = Some k"
    by (auto simp: includes_str_def)
  then have "k \<le> length s" "startsWith (drop k s) sub"
    using indexOf_Some_occurs by blast+
  then have "startsWith (drop k (s @ t)) sub" "k \<le> length (s @ t)"
    by (auto simp: startsWith_append)
  from occurs_indexOf[OF this] show ?thesis
    by (auto simp: includes_str_def)
qed

lemma prefix_targets_browser:
  assumes "startsWith n ''roxybrowser-openapi__''"
  shows "isBrowserTarget n"
proof -
  from assms obtain r where "n = ''roxybrowser-openapi__'' @ r"
    by (auto simp: startsWith_prefix prefix_def)
  moreover have "includes_str ''roxybrowser-openapi__'' ''browser''"
    by (simp add: includes_str_def)
  ultimately show ?thesis
    using includes_str_append_right isBrowserTarget_def by blast
qed

lemma isDeleteWindowTool_iff:
  "isDeleteWindowTool name \<longleftrightarrow>
     startsWith (toLowerCase name) ''roxybrowser-openapi__'' \<and> isDeleteAction (toLowerCase name)"
  using prefix_targets_browser by (auto simp: isDeleteWindowTool_def Let_def)


lemma tools_loop_filter:
  "tools_loop J cl ids calls rs msgs log =
   tools_loop J cl ids (filter (\<lambda>tc. \<not> already_answered ids tc) calls) rs msgs log"
  by (induction calls arbitrary: rs msgs log) (auto simp: Let_def split: list.splits)

lemma tools_loop_plain_prefix:
  assumes "\<forall>tc \<in> set pre. \<not> already_answered ids tc \<and> \<not> isDeleteWindowTool (tc_name tc)"
  shows "tools_loop J cl ids (pre @ rest) rs msgs log =
         tools_loop J cl ids rest rs
           (msgs @ map (\<lambda>tc. run_tool J cl tc (tc_args tc)) pre)
           (log @ map (\<lambda>tc. (tc_id tc, tc_name tc, tc_args tc)) pre)"
  using assms by (induction pre arbitrary: msgs log) auto

lemma tools_pending:
  assumes "messages \<noteq> []"
  shows "tools J cl rs messages =
         tools_loop J cl (toolMessageIds messages) (pending_calls messages) rs [] []"
  using assms tools_loop_filter[of J cl "toolMessageIds messages" "tool_calls_of (last messages)" rs "[]" "[]"]
  by (simp add: tools_def pending_calls_def last_message_def)

lemma pending_not_answered:
  "tc \<in> set (pending_calls messages) \<Longrightarrow> \<not> already_answered (toolMessageIds messages) tc"
  by (auto simp: pending_calls_def split: option.splits)

lemma run_tool_key:
  "message_key (run_tool J cl tc a) = call_key tc" "\<not> tm_hitl_rejected (run_tool J cl tc a)"
  by (auto simp: run_tool_def createToolMessage_def createErrorToolMessage_def message_key_def
      call_key_def split: sum.splits)

lemma dispatch_key_call [simp]: "dispatch_key (tc_id tc, tc_name tc, a) = call_key tc"
  by (simp add: dispatch_key_def call_key_def)

lemma rejection_key:
  "message_key (createRejectionToolMessage (tc_id tc) (tc_name tc)) = call_key tc"
  "tm_hitl_rejected (createRejectionToolMessage i n)"
  "tm_error (createRejectionToolMessage i n)"
  by (auto simp: createRejectionToolMessage_def message_key_def call_key_def)

lemma tools_loop_log_prefix:
  assumes "\<forall>tc \<in> set calls. \<not> already_answered ids tc"
  shows "prefix (map dispatch_key (fst (tools_loop J cl ids calls rs msgs log)))
           (map dispatch_key log @ map call_key calls)"
  using assms
proof (induction calls arbitrary: rs msgs log)
  case Nil
  then show ?case by simp
next
  case (Cons tc rest)
  have step: "prefix (map dispatch_key (fst (tools_loop J cl ids rest rs' (msgs @ [m]) (log @ [(tc_id tc, tc_name tc, a)]))))
           (map dispatch_key log @ map call_key (tc # rest))" for rs' m a
    using Cons.IH[of rs' "msgs @ [m]" "log @ [(tc_id tc, tc_name tc, a)]"] Cons.prems
    by simp
  show ?case
    using Cons.prems step by (auto simp: Let_def split: list.splits)
qed

lemma tools_loop_messages_prefix:
  assumes "\<forall>tc \<in> set calls. \<not> already_answered ids tc"
    and "snd (tools_loop J cl ids calls rs msgs log) = Completed ms"
  shows "prefix (map message_key ms) (map message_key msgs @ map call_key calls)"
  using assms
proof (induction calls arbitrary: rs msgs log)
  case Nil
  then show ?case by simp
next
  case (Cons tc rest)
  have step: "snd (tools_loop J cl ids rest rs' (msgs @ [run_tool J cl tc a]) lg) = Completed ms
      \<Longrightarrow> prefix (map message_key ms) (map message_key msgs @ map call_key (tc # rest))" for rs' a lg
    using Cons.IH[of rs' "msgs @ [run_tool J cl tc a]" lg] Cons.prems(1)
    by (simp add: run_tool_key)
  show ?case
    using Cons.prems step
    by (auto simp: Let_def rejection_key split: list.splits if_splits)
qed

lemma tools_loop_messages_complete:
  assumes "\<forall>tc \<in> set calls. \<not> already_answered ids tc"
    and "snd (tools_loop J cl ids calls rs msgs log) = Completed ms"
    and "\<forall>m \<in> set ms. \<not> tm_hitl_rejected m"
  shows "map message_key ms = map message_key msgs @ map call_key calls"
  using assms
proof (induction calls arbitrary: rs msgs log)
  case Nil
  then show ?case by simp
next
  case (Cons tc rest)
  have step: "snd (tools_loop J cl ids rest rs' (msgs @ [run_tool J cl tc a]) lg) = Completed ms
      \<Longrightarrow> map message_key ms = map message_key msgs @ map call_key (tc # rest)" for rs' a lg
    using Cons.IH[of rs' "msgs @ [run_tool J cl tc a]" lg] Cons.prems(1,3)
    by (simp add: run_tool_key)
  show ?case
    using Cons.prems step
    by (auto simp: Let_def rejection_key split: list.splits if_splits)
qed

lemma tools_first_sensitive:
  assumes "pending_calls messages = pre @ tc # rest"
    and "\<forall>c \<in> set pre. \<not> isDeleteWindowTool (tc_name c)"
  shows "tools J cl rs messages =
         tools_loop J cl (toolMessageIds messages) (tc # rest) rs
           (map (\<lambda>c. run_tool J cl c (tc_args c)) pre) (map dispatch_of pre)"
    and "\<not> already_answered (toolMessageIds messages) tc"
proof -
  from assms(1) have ne: "messages \<noteq> []"
    by (auto simp: pending_calls_def last_message_def)
  have na: "\<forall>c \<in> set (pre @ tc # rest). \<not> already_answered (toolMessageIds messages) c"
    using pending_not_answered[of _ messages] assms(1) by simp
  then show "\<not> already_answered (toolMessageIds messages) tc"
    by simp
  from na assms(2)
  have "\<forall>c \<in> set pre. \<not> already_answered (toolMessageIds messages) c \<and> \<not> isDeleteWindowTool (tc_name c)"
    by simp
  from tools_loop_plain_prefix[OF this, of J cl "tc # rest" rs "[]" "[]"]
  show "tools J cl rs messages =
         tools_loop J cl (toolMessageIds messages) (tc # rest) rs
           (map (\<lambda>c. run_tool J cl c (tc_args c)) pre) (map dispatch_of pre)"
    using tools_pending[OF ne, of J cl rs] assms(1)
    by (simp add: dispatch_of_def[abs_def])
qed

text \<open>
  C1, as the code has it. The predicate holds exactly for the names that, lower-cased,
  start with \<open>roxybrowser-openapi__\<close> and contain \<open>delete\<close> or \<open>remove\<close> (the prefix
  itself contains \<open>browser\<close>); every name it holds for names a delete or remove action
  on a browser or window. When the loop reaches such a call and no decision is left for
  it, the node is suspended with a request for that call and the call is not dispatched;
  a call with any other name is dispatched and the loop goes on, the resume values
  untouched. For the node as a whole: with no decision supplied, the calls before the
  first such call have been dispatched when the node is suspended; when none of the calls
  still to run has such a name, every one of them is dispatched and the node completes.
\<close>

theorem sensitive_calls_suspend:
  "(isDeleteWindowTool name \<longleftrightarrow>
      startsWith (toLowerCase name) ''roxybrowser-openapi__'' \<and> isDeleteAction (toLowerCase name))
   \<and> (isDeleteWindowTool name \<longrightarrow>
        isDeleteAction (toLowerCase name) \<and> isBrowserTarget (toLowerCase name))
   \<and> (\<not> already_answered ids call \<and> isDeleteWindowTool (tc_name call) \<longrightarrow>
        tools_loop J cl ids (call # calls) [] msgs log =
          (log, Interrupted (buildDeleteInterrupt (tc_name call) (tc_args call))))
   \<and> (\<not> already_answered ids call \<and> \<not> isDeleteWindowTool (tc_name call) \<longrightarrow>
        tools_loop J cl ids (call # calls) rs msgs log =
          tools_loop J cl ids calls rs (msgs @ [run_tool J cl call (tc_args call)])
            (log @ [dispatch_of call]))
   \<and> (pending_calls messages = pre @ tc # rest
        \<and> (\<forall>c \<in> set pre. \<not> isDeleteWindowTool (tc_name c))
        \<and> isDeleteWindowTool (tc_name tc) \<longrightarrow>
       tools J cl [] messages =
         (map dispatch_of pre, Interrupted (buildDeleteInterrupt (tc_name tc) (tc_args tc))))
   \<and> (messages \<noteq> [] \<and> (\<forall>c \<in> set (pending_calls messages). \<not> isDeleteWindowTool (tc_name c)) \<longrightarrow>
       tools J cl rs messages =
         (map dispatch_of (pending_calls messages),
          Completed (map (\<lambda>c. run_tool J cl c (tc_args c)) (pending_calls messages))))"
proof -
  have p1: "isDeleteWindowTool name \<longleftrightarrow>
      startsWith (toLowerCase name) ''roxybrowser-openapi__'' \<and> isDeleteAction (toLowerCase name)"
    by (rule isDeleteWindowTool_iff)
  have p2: "isDeleteAction (toLowerCase name) \<and> isBrowserTarget (toLowerCase name)"
    if "isDeleteWindowTool name"
    using that isDeleteWindowTool_iff prefix_targets_browser by blast
  have p3: "tools_loop J cl ids (call # calls) [] msgs log =
          (log, Interrupted (buildDeleteInterrupt (tc_name call) (tc_args call)))"
    if "\<not> already_answered ids call" "isDeleteWindowTool (tc_name call)"
    using that by simp
  have p4: "tools_loop J cl ids (call # calls) rs msgs log =
          tools_loop J cl ids calls rs (msgs @ [run_tool J cl call (tc_args call)])
            (log @ [dispatch_of call])"
    if "\<not> already_answered ids call" "\<not> isDeleteWindowTool (tc_name call)"
    using that by (simp add: dispatch_of_def)
  have p5: "tools J cl [] messages =
         (map dispatch_of pre, Interrupted (buildDeleteInterrupt (tc_name tc) (tc_args tc)))"
    if "pending_calls messages = pre @ tc # rest"
      "\<forall>c \<in> set pre. \<not> isDeleteWindowTool (tc_name c)" "isDeleteWindowTool (tc_name tc)"
    using that tools_first_sensitive[of messages pre tc rest] by simp
  have p6: "tools J cl rs messages =
         (map dispatch_of (pending_calls messages),
          Completed (map (\<lambda>c. run_tool J cl c (tc_args c)) (pending_calls messages)))"
    if a: "messages \<noteq> []" "\<forall>c \<in> set (pending_calls messages). \<not> isDeleteWindowTool (tc_name c)"
  proof -
    from a have "\<forall>c \<in> set (pending_calls messages).
        \<not> already_answered (toolMessageIds messages) c \<and> \<not> isDeleteWindowTool (tc_name c)"
      using pending_not_answered by blast
    from tools_loop_plain_prefix[OF this, of J cl "[]" rs "[]" "[]"]
    show ?thesis
      using a tools_pending[of messages J cl rs] by (simp add: dispatch_of_def[abs_def])
  qed
  from p1 p2 p3 p4 p5 p6 show ?thesis
    by blast
qed

lemma example_names:
  "isDeleteWindowTool (tc_name example_delete_call)"
  "\<not> isDeleteWindowTool (tc_name example_list_call)"
  by (simp_all add: example_delete_call_def example_list_call_def isDeleteWindowTool_def
      isDeleteAction_def isBrowserTarget_def includes_str_def toLowerCase_def toLowerChar_def)

lemma example_pending:
  "pending_calls [asking calls] = calls"
  by (simp add: pending_calls_def last_message_def asking_def tool_calls_of_def toolMessageIds_def
      message_tool_call_id_def already_answered_def truthy_id_def)

theorem sensitive_calls_suspend_witness:
  "isDeleteWindowTool ''roxybrowser-openapi__Delete_Window''
   \<and> pending_calls [asking [example_list_call, example_delete_call]] = [example_list_call] @ example_delete_call # []
   \<and> \<not> isDeleteWindowTool (tc_name example_list_call)
   \<and> isDeleteWindowTool (tc_name example_delete_call)
   \<and> tools example_JSON [example_server] [] [asking [example_list_call, example_delete_call]] =
       ([(Some ''t2'', ''roxybrowser-openapi__list_windows'', JObj [])],
        Interrupted (buildDeleteInterrupt ''roxybrowser-openapi__delete_window'' (JObj [(''id'', JNum 7)])))
   \<and> tools example_JSON [example_server] [] [asking [example_list_call]] =
       ([(Some ''t2'', ''roxybrowser-openapi__list_windows'', JObj [])],
        Completed [run_tool example_JSON [example_server] example_list_call (JObj [])])"
proof -
  have n: "isDeleteWindowTool ''roxybrowser-openapi__Delete_Window''"
    using sensitive_calls_suspend[where name = "''roxybrowser-openapi__Delete_Window''"]
    by (simp add: isDeleteAction_def includes_str_def toLowerCase_def toLowerChar_def)
  have p: "pending_calls [asking [example_list_call, example_delete_call]] = [example_list_call] @ example_delete_call # []"
    by (simp add: example_pending)
  have i: "tools example_JSON [example_server] [] [asking [example_list_call, example_delete_call]] =
       (map dispatch_of [example_list_call],
        Interrupted (buildDeleteInterrupt (tc_name example_delete_call) (tc_args example_delete_call)))"
    using sensitive_calls_suspend[where messages = "[asking [example_list_call, example_delete_call]]"
        and pre = "[example_list_call]" and tc = example_delete_call and rest = "[]"
        and J = example_JSON and cl = "[example_server]"]
      p example_names by simp
  have c: "tools example_JSON [example_server] [] [asking [example_list_call]] =
       (map dispatch_of [example_list_call],
        Completed (map (\<lambda>c. run_tool example_JSON [example_server] c (tc_args c)) [example_list_call]))"
    using sensitive_calls_suspend[where messages = "[asking [example_list_call]]"
        and J = example_JSON and cl = "[example_server]" and rs = "[]"]
      example_names by (simp add: example_pending)
  from n p i c example_names show ?thesis
    by (simp add: dispatch_of_def example_list_call_def example_delete_call_def)
qed

text \<open>
  C1 as stated fails: \<open>other__delete_window\<close> names a delete action on a window, but it
  lacks the prefix, so the predicate is false and the call is dispatched at once.
\<close>

theorem name_test_needs_prefix_counterexample:
  "isDeleteAction (toLowerCase ''other__delete_window'')
   \<and> isBrowserTarget (toLowerCase ''other__delete_window'')
   \<and> \<not> isDeleteWindowTool ''other__delete_window''
   \<and> tools example_JSON [] []
        [asking [\<lparr>tc_name = ''other__delete_window'', tc_args = JObj [], tc_id = Some ''t1''\<rparr>]] =
       ([(Some ''t1'', ''other__delete_window'', JObj [])],
        Completed [createErrorToolMessage ''MCP server not found: other'' (Some ''t1'') ''other__delete_window''])"
  by (simp add: isDeleteWindowTool_def isDeleteAction_def isBrowserTarget_def includes_str_def
      toLowerCase_def toLowerChar_def tools_def last_message_def asking_def tool_calls_of_def
      toolMessageIds_def message_tool_call_id_def already_answered_def truthy_id_def run_tool_def
      executeMCPTool_def split_str.simps)






text \<open>
  C3, as the code has it. No call whose non-empty id is the \<open>tool_call_id\<close> of a tool
  message in the history is dispatched; the dispatches follow the remaining calls in
  their order. When the node completes, its tool messages answer an initial stretch of
  the remaining calls, one message per call in the original order, and they answer all
  of them when none of the messages is a rejection.
\<close>

theorem replay_guard_and_result_order:
  "(\<forall>d \<in> set (fst (tools J cl rs messages)).
       \<not> (truthy_id (fst d) \<and> the (fst d) \<in> toolMessageIds messages))
   \<and> prefix (map dispatch_key (fst (tools J cl rs messages))) (map call_key (pending_calls messages))
   \<and> (snd (tools J cl rs messages) = Completed ms \<longrightarrow>
        prefix (map message_key ms) (map call_key (pending_calls messages))
        \<and> ((\<forall>m \<in> set ms. \<not> tm_hitl_rejected m) \<longrightarrow>
             map message_key ms = map call_key (pending_calls messages)))"
proof (cases "messages = []")
  case True
  then show ?thesis
    by (simp add: tools_def last_message_def)
next
  case False
  let ?ids = "toolMessageIds messages"
  let ?R = "tools_loop J cl ?ids (pending_calls messages) rs [] []"
  have R: "tools J cl rs messages = ?R"
    using False by (rule tools_pending)
  have na: "\<forall>tc \<in> set (pending_calls messages). \<not> already_answered ?ids tc"
    using pending_not_answered by blast
  have p: "prefix (map dispatch_key (fst ?R)) (map call_key (pending_calls messages))"
    using tools_loop_log_prefix[OF na, of J cl rs "[]" "[]"] by simp
  have g: "\<not> (truthy_id (fst d) \<and> the (fst d) \<in> ?ids)" if d: "d \<in> set (fst ?R)" for d
  proof -
    from d have "dispatch_key d \<in> set (map dispatch_key (fst ?R))"
      by simp
    with p have "dispatch_key d \<in> set (map call_key (pending_calls messages))"
      using set_mono_prefix by blast
    then obtain tc where "tc \<in> set (pending_calls messages)" "call_key tc = dispatch_key d"
      by auto
    with na show ?thesis
      by (auto simp: already_answered_def call_key_def dispatch_key_def)
  qed
  have m1: "prefix (map message_key ms) (map call_key (pending_calls messages))"
    if "snd ?R = Completed ms"
    using tools_loop_messages_prefix[OF na that] by simp
  have m2: "map message_key ms = map call_key (pending_calls messages)"
    if "snd ?R = Completed ms" "\<forall>m \<in> set ms. \<not> tm_hitl_rejected m"
    using tools_loop_messages_complete[OF na that] by simp
  from p g m1 m2 show ?thesis
    unfolding R by blast
qed

theorem replay_guard_and_result_order_witness:
  "toolMessageIds
      [asking [example_list_call],
       ToolMessage \<lparr>tm_content = TextContent ''[]'', tm_tool_call_id = Some ''t2'',
                    tm_name = ''roxybrowser-openapi__list_windows'', tm_error = False,
                    tm_hitl_rejected = False\<rparr>,
       asking [example_list_call, example_list_call\<lparr>tc_id := Some ''t3''\<rparr>]] = {''t2''}
   \<and> tools example_JSON [example_server] []
        [asking [example_list_call],
         ToolMessage \<lparr>tm_content = TextContent ''[]'', tm_tool_call_id = Some ''t2'',
                      tm_name = ''roxybrowser-openapi__list_windows'', tm_error = False,
                      tm_hitl_rejected = False\<rparr>,
         asking [example_list_call, example_list_call\<lparr>tc_id := Some ''t3''\<rparr>]] =
       ([(Some ''t3'', ''roxybrowser-openapi__list_windows'', JObj [])],
        Completed [\<lparr>tm_content = TextContent ''deleted'', tm_tool_call_id = Some ''t3'',
                    tm_name = ''roxybrowser-openapi__list_windows'', tm_error = False,
                    tm_hitl_rejected = False\<rparr>])
   \<and> map message_key
        [\<lparr>tm_content = TextContent ''deleted'', tm_tool_call_id = Some ''t3'',
          tm_name = ''roxybrowser-openapi__list_windows'', tm_error = False,
          tm_hitl_rejected = False\<rparr>] =
       map call_key
        (pending_calls
          [asking [example_list_call],
           ToolMessage \<lparr>tm_content = TextContent ''[]'', tm_tool_call_id = Some ''t2'',
                        tm_name = ''roxybrowser-openapi__list_windows'', tm_error = False,
                        tm_hitl_rejected = False\<rparr>,
           asking [example_list_call, example_list_call\<lparr>tc_id := Some ''t3''\<rparr>]])"
proof -
  let ?h = "[asking [example_list_call],
       ToolMessage \<lparr>tm_content = TextContent ''[]'', tm_tool_call_id = Some ''t2'',
                    tm_name = ''roxybrowser-openapi__list_windows'', tm_error = False,
                    tm_hitl_rejected = False\<rparr>,
       asking [example_list_call, example_list_call\<lparr>tc_id := Some ''t3''\<rparr>]]"
  let ?m = "\<lparr>tm_content = TextContent ''deleted'', tm_tool_call_id = Some ''t3'',
                    tm_name = ''roxybrowser-openapi__list_windows'', tm_error = False,
                    tm_hitl_rejected = False\<rparr>"
  have ids: "toolMessageIds ?h = {''t2''}"
    by (simp add: toolMessageIds_def message_tool_call_id_def truthy_id_def asking_def)
  have run: "tools example_JSON [example_server] [] ?h =
       ([(Some ''t3'', ''roxybrowser-openapi__list_windows'', JObj [])], Completed [?m])"
    by (simp add: tools_def last_message_def asking_def tool_calls_of_def toolMessageIds_def
        message_tool_call_id_def
        already_answered_def truthy_id_def example_list_call_def isDeleteWindowTool_def
        isDeleteAction_def isBrowserTarget_def includes_str_def toLowerCase_def toLowerChar_def
        run_tool_def executeMCPTool_def split_str.simps example_server_def createToolMessage_def
        formatToolResult_def)
  have "map message_key [?m] = map call_key (pending_calls ?h)"
    using replay_guard_and_result_order[of example_JSON "[example_server]" "[]" ?h "[?m]"] run
    by simp
  with ids run show ?thesis
    by simp
qed

text \<open>
  C3 as stated fails: after a rejection the node completes with the rejection alone, and
  the remaining call \<open>t2\<close> has no tool message. And a call whose id is the empty string
  is dispatched although a tool message with that id is in the history.
\<close>

theorem rejection_abandons_batch_counterexample:
  "pending_calls [asking [example_delete_call, example_list_call]] = [example_delete_call, example_list_call]
   \<and> tools example_JSON [example_server] [JObj [(''decisions'', JArr [JObj [(''type'', JStr ''reject'')]])]]
        [asking [example_delete_call, example_list_call]] =
       ([], Completed [createRejectionToolMessage (Some ''t1'') ''roxybrowser-openapi__delete_window''])
   \<and> toolMessageIds
        [ToolMessage \<lparr>tm_content = TextContent ''[]'', tm_tool_call_id = Some [],
                      tm_name = ''roxybrowser-openapi__list_windows'', tm_error = False,
                      tm_hitl_rejected = False\<rparr>,
         asking [example_list_call\<lparr>tc_id := Some []\<rparr>]] = {}
   \<and> fst (tools example_JSON [example_server] []
        [ToolMessage \<lparr>tm_content = TextContent ''[]'', tm_tool_call_id = Some [],
                      tm_name = ''roxybrowser-openapi__list_windows'', tm_error = False,
                      tm_hitl_rejected = False\<rparr>,
         asking [example_list_call\<lparr>tc_id := Some []\<rparr>]]) =
       [(Some [], ''roxybrowser-openapi__list_windows'', JObj [])]"
proof -
  have s: "isDeleteWindowTool ''roxybrowser-openapi__delete_window''"
      "\<not> isDeleteWindowTool ''roxybrowser-openapi__list_windows''"
    using example_names by (simp_all add: example_delete_call_def example_list_call_def)
  have p: "pending_calls [asking [example_delete_call, example_list_call]] = [example_delete_call, example_list_call]"
    by (simp add: example_pending)
  have r: "tools example_JSON [example_server] [JObj [(''decisions'', JArr [JObj [(''type'', JStr ''reject'')]])]]
        [asking [example_delete_call, example_list_call]] =
       ([], Completed [createRejectionToolMessage (Some ''t1'') ''roxybrowser-openapi__delete_window''])"
    using s by (simp add: tools_def last_message_def asking_def tool_calls_of_def
        toolMessageIds_def message_tool_call_id_def already_answered_def truthy_id_def
        example_delete_call_def example_list_call_def getDecision_def rejects_def)
  have e: "toolMessageIds
        [ToolMessage \<lparr>tm_content = TextContent ''[]'', tm_tool_call_id = Some [],
                      tm_name = ''roxybrowser-openapi__list_windows'', tm_error = False,
                      tm_hitl_rejected = False\<rparr>,
         asking [example_list_call\<lparr>tc_id := Some []\<rparr>]] = {}"
    by (simp add: toolMessageIds_def message_tool_call_id_def truthy_id_def asking_def)
  have d: "fst (tools example_JSON [example_server] []
        [ToolMessage \<lparr>tm_content = TextContent ''[]'', tm_tool_call_id = Some [],
                      tm_name = ''roxybrowser-openapi__list_windows'', tm_error = False,
                      tm_hitl_rejected = False\<rparr>,
         asking [example_list_call\<lparr>tc_id := Some []\<rparr>]]) =
       [(Some [], ''roxybrowser-openapi__list_windows'', JObj [])]"
    using s by (simp add: tools_def last_message_def asking_def tool_calls_of_def
        toolMessageIds_def message_tool_call_id_def already_answered_def truthy_id_def
        example_list_call_def)
  from p r e d show ?thesis
    by blast
qed

section \<open>The chat node\<close>

lemma generate_depends_on_response:
  "provider' messages ts = provider messages ts \<Longrightarrow>
   generateWithAnthropic J writer messageId provider' messages ts =
   generateWithAnthropic J writer messageId provider messages ts"
  by (simp add: generateWithAnthropic_def)



section \<open>Reading the event stream\<close>

lemma startsWith_append_iff:
  "length p \<le> length s \<Longrightarrow> startsWith (s @ t) p \<longleftrightarrow> startsWith s p"
  by (auto simp: startsWith_prefix prefix_append dest: prefix_length_le)

lemma indexOf_append:
  "indexOf a sub = Some i \<Longrightarrow> indexOf (a @ b) sub = Some i"
proof (induction a arbitrary: i)
  case Nil
  then show ?case by (cases b) (auto split: if_splits)
next
  case (Cons c cs)
  show ?case
  proof (cases "startsWith (c # cs) sub")
    case True
    with Cons.prems show ?thesis
      using startsWith_append[OF True, of b] by simp
  next
    case False
    with Cons.prems obtain j where j: "indexOf cs sub = Some j" "i = Suc j"
      by auto
    then have "length sub \<le> length (c # cs)"
      using indexOf_length[OF j(1)] by simp
    with False have "\<not> startsWith ((c # cs) @ b) sub"
      using startsWith_append_iff by blast
    with Cons.IH[OF j(1)] j(2) show ?thesis
      by simp
  qed
qed

lemma drain_append:
  "drain h (a @ b) s =
     (case drain h a s of Inl e \<Rightarrow> Inl e | Inr (r, s') \<Rightarrow> drain h (r @ b) s')"
proof (induction h a s rule: drain.induct)
  case (1 h buffer s)
  show ?case
  proof (cases "indexOf buffer [LF, LF]")
    case None
    then show ?thesis
      by (simp add: drain.simps[of h buffer])
  next
    case (Some i)
    then have ab: "indexOf (buffer @ b) [LF, LF] = Some i"
      by (rule indexOf_append)
    from Some have len: "i + 2 \<le> length buffer"
      using indexOf_length by fastforce
    show ?thesis
    proof (cases "h (take i buffer) s")
      case (Inl e)
      with Some ab len show ?thesis
        by (simp add: drain.simps[of h buffer] drain.simps[of h "buffer @ b"])
    next
      case (Inr s')
      with Some ab len "1.IH"[OF Some Inr] show ?thesis
        by (simp add: drain.simps[of h buffer] drain.simps[of h "buffer @ b"])
    qed
  qed
qed

lemma drain_rest:
  "drain h buffer s = Inr (r, s') \<Longrightarrow> indexOf r [LF, LF] = None"
proof (induction h buffer s rule: drain.induct)
  case (1 h buffer s)
  then show ?case
    by (subst (asm) drain.simps) (auto split: option.splits sum.splits)
qed

lemma drain_no_boundary:
  "indexOf buffer [LF, LF] = None \<Longrightarrow> drain h buffer s = Inr (buffer, s)"
  by (simp add: drain.simps)

lemma read_all_concat:
  "indexOf buffer [LF, LF] = None \<Longrightarrow>
   read_all h fragments buffer s = drain h (buffer @ concat fragments) s"
proof (induction fragments arbitrary: buffer s)
  case Nil
  then show ?case by (simp add: drain_no_boundary)
next
  case (Cons v rest)
  have "drain h (buffer @ v @ concat rest) s =
        (case drain h (buffer @ v) s of Inl e \<Rightarrow> Inl e | Inr (r, s') \<Rightarrow> drain h (r @ concat rest) s')"
    using drain_append[of h "buffer @ v" "concat rest" s] by simp
  also have "\<dots> = (case drain h (buffer @ v) s of Inl e \<Rightarrow> Inl e | Inr (r, s') \<Rightarrow> read_all h rest r s')"
  proof (cases "drain h (buffer @ v) s")
    case (Inl e)
    then show ?thesis by simp
  next
    case (Inr p)
    obtain r s' where p: "p = (r, s')"
      by (cases p)
    with Inr have d: "drain h (buffer @ v) s = Inr (r, s')"
      by simp
    then have "indexOf r [LF, LF] = None"
      by (rule drain_rest)
    from Cons.IH[OF this] d show ?thesis
      by simp
  qed
  finally show ?case by simp
qed

lemma read_all_text:
  "read_all h fragments [] s = drain h (concat fragments) s"
  using read_all_concat[of "[]" h fragments s] by simp

lemma decode_frames_text:
  "decode_frames fragments = decode_frames [concat fragments]"
  by (simp add: decode_frames_def read_all_text)

lemma drain_complete_then_partial:
  assumes "drain h complete s = Inr ([], s')" and "indexOf partial [LF, LF] = None"
  shows "drain h (complete @ partial) s = Inr (partial, s')"
  using assms by (simp add: drain_append drain_no_boundary)

text \<open>
  C6. The decoded frames depend only on the text of the stream, not on how it is cut
  into fragments. What is left in the buffer when the stream ends is never emitted: a
  text without a blank line gives no frame, and a text that is consumed entirely,
  followed by a partial frame without a blank line, gives the frames of the former.
\<close>

theorem frame_decoding_fragmentation_invariant:
  "(concat fragments = concat fragments' \<longrightarrow> decode_frames fragments = decode_frames fragments')
   \<and> (indexOf (concat fragments) [LF, LF] = None \<longrightarrow> decode_frames fragments = [])
   \<and> (read_all record_frame [complete] [] [] = Inr ([], frames)
        \<and> indexOf partial [LF, LF] = None
        \<and> concat fragments = complete @ partial \<longrightarrow>
       decode_frames fragments = frames)"
proof (intro conjI impI)
  assume "concat fragments = concat fragments'"
  then show "decode_frames fragments = decode_frames fragments'"
    using decode_frames_text[of fragments] decode_frames_text[of fragments'] by simp
next
  assume "indexOf (concat fragments) [LF, LF] = None"
  then show "decode_frames fragments = []"
    by (simp add: decode_frames_def read_all_text drain_no_boundary)
next
  assume a: "read_all record_frame [complete] [] [] = Inr ([], frames)
        \<and> indexOf partial [LF, LF] = None
        \<and> concat fragments = complete @ partial"
  then have "drain record_frame complete [] = Inr ([], frames)"
    by (simp add: read_all_text)
  with a have "drain record_frame (concat fragments) [] = Inr (partial, frames)"
    using drain_complete_then_partial[of record_frame complete "[]" frames partial] by simp
  then show "decode_frames fragments = frames"
    by (simp add: decode_frames_def read_all_text)
qed

lemma example_text_frame_parsed:
  \<open>parseEventPayload example_text_frame =
     Some \<lparr>frame_event = ''content_block_delta'',
           frame_data = ''{"type":"content_block_delta","index":0,"delta":{"type":"text_delta","text":"Hi"}}''\<rparr>\<close>
  by (simp add: example_text_frame_def parseEventPayload_def split_str.simps trim_def is_space_def)

lemma example_error_frame_parsed:
  \<open>parseEventPayload example_error_frame =
     Some \<lparr>frame_event = ''error'',
           frame_data = ''{"type":"error","error":{"type":"overloaded_error","message":"Overloaded"}}''\<rparr>\<close>
  by (simp add: example_error_frame_def parseEventPayload_def split_str.simps trim_def is_space_def)

lemma example_frames_boundary:
  "indexOf (example_text_frame @ [LF, LF]) [LF, LF] = Some (length example_text_frame)"
  "indexOf (example_error_frame @ [LF, LF]) [LF, LF] = Some (length example_error_frame)"
  by (simp_all add: example_text_frame_def example_error_frame_def)

theorem frame_decoding_fragmentation_invariant_witness:
  "concat [''event: pi'', ''ng'' @ [LF] @ ''data: {}'' @ [LF], [LF] @ ''data: x'' @ [LF, LF] @ ''data: tail'']
     = concat [''event: ping'' @ [LF] @ ''data: {}'' @ [LF, LF] @ ''data: x'' @ [LF, LF] @ ''data: tail'']
   \<and> decode_frames [''event: pi'', ''ng'' @ [LF] @ ''data: {}'' @ [LF], [LF] @ ''data: x'' @ [LF, LF] @ ''data: tail'']
     = [\<lparr>frame_event = ''ping'', frame_data = ''{}''\<rparr>, \<lparr>frame_event = ''message'', frame_data = ''x''\<rparr>]
   \<and> indexOf ''data: tail'' [LF, LF] = None
   \<and> decode_frames [''data: t'', ''ail''] = []"
proof -
  let ?whole = "''event: ping'' @ [LF] @ ''data: {}'' @ [LF, LF] @ ''data: x'' @ [LF, LF]"
  let ?frags = "[''event: pi'', ''ng'' @ [LF] @ ''data: {}'' @ [LF], [LF] @ ''data: x'' @ [LF, LF] @ ''data: tail'']"
  have c: "concat ?frags = ?whole @ ''data: tail''"
    by simp
  have n: "indexOf ''data: tail'' [LF, LF] = None"
    by simp
  have f: "read_all record_frame [?whole] [] [] =
             Inr ([], [\<lparr>frame_event = ''ping'', frame_data = ''{}''\<rparr>, \<lparr>frame_event = ''message'', frame_data = ''x''\<rparr>])"
    by (simp add: drain.simps record_frame_def parseEventPayload_def split_str.simps trim_def is_space_def)
  have d1: "decode_frames ?frags =
      [\<lparr>frame_event = ''ping'', frame_data = ''{}''\<rparr>, \<lparr>frame_event = ''message'', frame_data = ''x''\<rparr>]"
    using frame_decoding_fragmentation_invariant[where fragments = ?frags and complete = ?whole
        and partial = "''data: tail''"] c n f by blast
  have d2: "decode_frames [''data: t'', ''ail''] = []"
    using frame_decoding_fragmentation_invariant[where fragments = "[''data: t'', ''ail'']"] by simp
  from c n d1 d2 show ?thesis
    by simp
qed

lemma handle_chunk_error_frame:
  assumes "parseEventPayload chunk = Some f" "frame_event f = ''error''" "frame_data f \<noteq> ''[DONE]''"
    and "json_parse J (frame_data f) = Some payload" "truthy payload"
  shows "handle_chunk J writer messageId chunk st =
           Inl (Error (js_to_string (errorMessage payload)), emitted st)"
  using assms by (simp add: handle_chunk_def safeJsonParse_def handle_payload_def)

lemma drain_at_frame:
  assumes "drain h before s = Inr ([], s1)"
    and "indexOf (chunk @ [LF, LF]) [LF, LF] = Some (length chunk)"
  shows "drain h (before @ chunk @ [LF, LF] @ rest) s =
           (case h chunk s1 of Inl e \<Rightarrow> Inl e | Inr s2 \<Rightarrow> drain h rest s2)"
proof -
  have i: "indexOf (chunk @ [LF, LF] @ rest) [LF, LF] = Some (length chunk)"
    using indexOf_append[OF assms(2), of rest] by simp
  have "drain h (before @ chunk @ [LF, LF] @ rest) s = drain h (chunk @ [LF, LF] @ rest) s1"
    using drain_append[of h before "chunk @ [LF, LF] @ rest" s] assms(1) by simp
  also have "\<dots> = (case h chunk s1 of Inl e \<Rightarrow> Inl e | Inr s2 \<Rightarrow> drain h rest s2)"
  proof -
    have "drop (length chunk + 2) (chunk @ [LF, LF] @ rest) = rest"
      by (simp add: numeral_2_eq_2)
    with i show ?thesis
      by (subst drain.simps) (simp split: sum.splits)
  qed
  finally show ?thesis .
qed

text \<open>
  C5, as the code has it. A frame with event \<open>error\<close> whose data is not \<open>[DONE]\<close> and
  parses to a truthy value makes the loop body throw, with the message taken from the
  payload. When the text before that frame was consumed without a throw,
  \<open>generateWithAnthropic\<close> throws that error, returns no message, and the notifications
  emitted are exactly those emitted for the text before the frame; whatever follows the
  frame is not read.
\<close>

theorem error_frame_aborts_generation:
  "(parseEventPayload chunk = Some f \<and> frame_event f = ''error'' \<and> frame_data f \<noteq> ''[DONE]''
      \<and> json_parse J (frame_data f) = Some payload \<and> truthy payload \<longrightarrow>
     handle_chunk J writer messageId chunk st =
       Inl (Error (js_to_string (errorMessage payload)), emitted st))
   \<and> (read_all (handle_chunk J writer messageId) [before] [] initial_state = Inr ([], st)
      \<and> indexOf (chunk @ [LF, LF]) [LF, LF] = Some (length chunk)
      \<and> parseEventPayload chunk = Some f \<and> frame_event f = ''error'' \<and> frame_data f \<noteq> ''[DONE]''
      \<and> json_parse J (frame_data f) = Some payload \<and> truthy payload
      \<and> provider messages ts = EventStream fragments
      \<and> concat fragments = before @ chunk @ [LF, LF] @ rest \<longrightarrow>
     generateWithAnthropic J writer messageId provider messages ts =
       Threw (Error (js_to_string (errorMessage payload))) (emitted st))"
proof (intro conjI impI)
  assume "parseEventPayload chunk = Some f \<and> frame_event f = ''error'' \<and> frame_data f \<noteq> ''[DONE]''
      \<and> json_parse J (frame_data f) = Some payload \<and> truthy payload"
  then show "handle_chunk J writer messageId chunk st =
       Inl (Error (js_to_string (errorMessage payload)), emitted st)"
    using handle_chunk_error_frame by blast
next
  let ?h = "handle_chunk J writer messageId"
  assume a: "read_all ?h [before] [] initial_state = Inr ([], st)
      \<and> indexOf (chunk @ [LF, LF]) [LF, LF] = Some (length chunk)
      \<and> parseEventPayload chunk = Some f \<and> frame_event f = ''error'' \<and> frame_data f \<noteq> ''[DONE]''
      \<and> json_parse J (frame_data f) = Some payload \<and> truthy payload
      \<and> provider messages ts = EventStream fragments
      \<and> concat fragments = before @ chunk @ [LF, LF] @ rest"
  then have b: "drain ?h before initial_state = Inr ([], st)"
    by (simp add: read_all_text)
  from a have e: "?h chunk st = Inl (Error (js_to_string (errorMessage payload)), emitted st)"
    using handle_chunk_error_frame by blast
  from a have "read_all ?h fragments [] initial_state = drain ?h (before @ chunk @ [LF, LF] @ rest) initial_state"
    by (simp add: read_all_text)
  also have "\<dots> = Inl (Error (js_to_string (errorMessage payload)), emitted st)"
    using drain_at_frame[OF b, of chunk rest] a e by simp
  finally show "generateWithAnthropic J writer messageId provider messages ts =
       Threw (Error (js_to_string (errorMessage payload))) (emitted st)"
    using a by (simp add: generateWithAnthropic_def)
qed

lemma example_payloads:
  \<open>json_parse example_JSON ''{"type":"content_block_delta","index":0,"delta":{"type":"text_delta","text":"Hi"}}''
     = Some (JObj [(''type'', JStr ''content_block_delta''), (''index'', JNum 0),
               (''delta'', JObj [(''type'', JStr ''text_delta''), (''text'', JStr ''Hi'')])])\<close>
  \<open>json_parse example_JSON ''{"type":"error","error":{"type":"overloaded_error","message":"Overloaded"}}''
     = Some (JObj [(''type'', JStr ''error''),
               (''error'', JObj [(''type'', JStr ''overloaded_error''), (''message'', JStr ''Overloaded'')])])\<close>
  \<open>json_parse example_JSON ''oops'' = None\<close>
  \<open>json_parse example_JSON ''{"a":1}'' = Some (JObj [(''a'', JNum 1)])\<close>
  \<open>json_parse example_JSON example_start_data = Some example_start_payload\<close>
  \<open>json_parse example_JSON example_delta1_data = Some example_delta1_payload\<close>
  \<open>json_parse example_JSON example_delta2_data = Some example_delta2_payload\<close>
  \<open>json_parse example_JSON example_other_start_data = Some example_other_start_payload\<close>
  by (simp_all add: example_JSON_def example_parse_def example_start_data_def
      example_delta1_data_def example_delta2_data_def example_other_start_data_def)

lemma example_text_frame_handled:
  "handle_chunk example_JSON True ''m1'' example_text_frame initial_state =
     Inr \<lparr>reasoningContent = [], textContent = ''Hi'', toolCallsMap = [],
          emitted = [\<lparr>n_type = ''content_chunk'', n_message_id = ''m1'', n_content = JStr ''Hi''\<rparr>]\<rparr>"
  by (simp add: handle_chunk_def example_text_frame_parsed safeJsonParse_def example_payloads
      handle_payload_def on_content_block_delta_def or_else_def emit_def initial_state_def)

lemma example_text_frame_read:
  "read_all (handle_chunk example_JSON True ''m1'') [example_text_frame @ [LF, LF]] [] initial_state =
     Inr ([], \<lparr>reasoningContent = [], textContent = ''Hi'', toolCallsMap = [],
          emitted = [\<lparr>n_type = ''content_chunk'', n_message_id = ''m1'', n_content = JStr ''Hi''\<rparr>]\<rparr>)"
proof -
  have "drain (handle_chunk example_JSON True ''m1'') ([] @ example_text_frame @ [LF, LF] @ []) initial_state =
        (case handle_chunk example_JSON True ''m1'' example_text_frame initial_state of
           Inl e \<Rightarrow> Inl e
         | Inr s2 \<Rightarrow> drain (handle_chunk example_JSON True ''m1'') [] s2)"
    by (rule drain_at_frame) (simp_all add: drain.simps example_frames_boundary)
  then show ?thesis
    by (simp add: read_all_text example_text_frame_handled drain.simps)
qed

theorem error_frame_aborts_generation_witness:
  "read_all (handle_chunk example_JSON True ''m1'') [example_text_frame @ [LF, LF]] [] initial_state =
     Inr ([], \<lparr>reasoningContent = [], textContent = ''Hi'', toolCallsMap = [],
          emitted = [\<lparr>n_type = ''content_chunk'', n_message_id = ''m1'', n_content = JStr ''Hi''\<rparr>]\<rparr>)
   \<and> frame_event (the (parseEventPayload example_error_frame)) = ''error''
   \<and> handle_chunk example_JSON True ''m1'' example_error_frame initial_state =
       Inl (Error ''Overloaded'', [])
   \<and> generateWithAnthropic example_JSON True ''m1''
        (\<lambda>h t. EventStream [example_text_frame, [LF, LF] @ example_error_frame @ [LF], [LF] @ example_text_frame @ [LF, LF]])
        [] [] =
       Threw (Error ''Overloaded'')
         [\<lparr>n_type = ''content_chunk'', n_message_id = ''m1'', n_content = JStr ''Hi''\<rparr>]"
proof -
  let ?p = "JObj [(''type'', JStr ''error''),
               (''error'', JObj [(''type'', JStr ''overloaded_error''), (''message'', JStr ''Overloaded'')])]"
  let ?f = "the (parseEventPayload example_error_frame)"
  let ?st = "\<lparr>reasoningContent = [], textContent = ''Hi'', toolCallsMap = [],
          emitted = [\<lparr>n_type = ''content_chunk'', n_message_id = ''m1'', n_content = JStr ''Hi''\<rparr>]\<rparr>"
  have m: "js_to_string (errorMessage ?p) = ''Overloaded''"
    by (simp add: errorMessage_def or_else_def)
  have f: "parseEventPayload example_error_frame = Some ?f" "frame_event ?f = ''error''"
      "frame_data ?f \<noteq> ''[DONE]''" "json_parse example_JSON (frame_data ?f) = Some ?p" "truthy ?p"
    by (simp_all add: example_error_frame_parsed example_payloads)
  have h: "handle_chunk example_JSON True ''m1'' example_error_frame initial_state = Inl (Error ''Overloaded'', [])"
    using error_frame_aborts_generation[where chunk = example_error_frame and f = ?f
        and J = example_JSON and payload = ?p and writer = True and messageId = "''m1''"
        and st = initial_state] f m
    by (simp add: initial_state_def)
  have g: "generateWithAnthropic example_JSON True ''m1''
        (\<lambda>h t. EventStream [example_text_frame, [LF, LF] @ example_error_frame @ [LF], [LF] @ example_text_frame @ [LF, LF]])
        [] [] = Threw (Error (js_to_string (errorMessage ?p))) (emitted ?st)"
    using error_frame_aborts_generation[where chunk = example_error_frame and f = ?f
        and J = example_JSON and payload = ?p and writer = True and messageId = "''m1''"
        and st = ?st and before = "example_text_frame @ [LF, LF]"
        and rest = "example_text_frame @ [LF, LF]"
        and provider = "\<lambda>h t. EventStream [example_text_frame, [LF, LF] @ example_error_frame @ [LF], [LF] @ example_text_frame @ [LF, LF]]"
        and fragments = "[example_text_frame, [LF, LF] @ example_error_frame @ [LF], [LF] @ example_text_frame @ [LF, LF]]"
        and messages = "[]" and ts = "[]"]
      f example_text_frame_read example_frames_boundary
    by simp
  from example_text_frame_read f h g m show ?thesis
    by simp
qed

text \<open>
  C5 as stated fails: a text fragment decoded before the error frame has been handed to
  the writer when the error is thrown, and an \<open>error\<close> frame whose data does not parse
  is skipped, so that the call returns a message.
\<close>

theorem notifications_before_error_counterexample:
  "generateWithAnthropic example_JSON True ''m1''
      (\<lambda>h t. EventStream [example_text_frame @ [LF, LF] @ example_error_frame @ [LF, LF]]) [] [] =
     Threw (Error ''Overloaded'')
       [\<lparr>n_type = ''content_chunk'', n_message_id = ''m1'', n_content = JStr ''Hi''\<rparr>]
   \<and> parseEventPayload example_unparsable_error_frame =
       Some \<lparr>frame_event = ''error'', frame_data = ''oops''\<rparr>
   \<and> generateWithAnthropic example_JSON True ''m1''
      (\<lambda>h t. EventStream [example_unparsable_error_frame @ [LF, LF]]) [] [] =
     Returned \<lparr>ai_id = Some ''m1'', ai_content = TextContent [], ai_tool_calls = [],
               ai_reasoning_content = None\<rparr> []"
proof -
  let ?h = "handle_chunk example_JSON True ''m1''"
  let ?st = "\<lparr>reasoningContent = [], textContent = ''Hi'', toolCallsMap = [],
          emitted = [\<lparr>n_type = ''content_chunk'', n_message_id = ''m1'', n_content = JStr ''Hi''\<rparr>]\<rparr>"
  have b: "drain ?h (example_text_frame @ [LF, LF]) initial_state = Inr ([], ?st)"
    using example_text_frame_read by (simp add: read_all_text)
  have e: "?h example_error_frame ?st = Inl (Error ''Overloaded'', emitted ?st)"
    by (simp add: handle_chunk_def example_error_frame_parsed safeJsonParse_def example_payloads
        handle_payload_def errorMessage_def or_else_def)
  have "drain ?h ((example_text_frame @ [LF, LF]) @ example_error_frame @ [LF, LF] @ []) initial_state =
        (case ?h example_error_frame ?st of Inl e \<Rightarrow> Inl e | Inr s2 \<Rightarrow> drain ?h [] s2)"
    using b example_frames_boundary(2) by (rule drain_at_frame)
  with e have g1: "generateWithAnthropic example_JSON True ''m1''
      (\<lambda>h t. EventStream [example_text_frame @ [LF, LF] @ example_error_frame @ [LF, LF]]) [] [] =
     Threw (Error ''Overloaded'')
       [\<lparr>n_type = ''content_chunk'', n_message_id = ''m1'', n_content = JStr ''Hi''\<rparr>]"
    by (simp add: generateWithAnthropic_def read_all_text)
  have p: "parseEventPayload example_unparsable_error_frame =
       Some \<lparr>frame_event = ''error'', frame_data = ''oops''\<rparr>"
    by (simp add: example_unparsable_error_frame_def parseEventPayload_def split_str.simps trim_def
        is_space_def)
  have "?h example_unparsable_error_frame initial_state = Inr initial_state"
    by (simp add: handle_chunk_def p safeJsonParse_def example_payloads)
  moreover have "drain ?h ([] @ example_unparsable_error_frame @ [LF, LF] @ []) initial_state =
        (case ?h example_unparsable_error_frame initial_state of
           Inl e \<Rightarrow> Inl e | Inr s2 \<Rightarrow> drain ?h [] s2)"
    by (rule drain_at_frame) (simp_all add: drain.simps example_unparsable_error_frame_def)
  ultimately have g2: "generateWithAnthropic example_JSON True ''m1''
      (\<lambda>h t. EventStream [example_unparsable_error_frame @ [LF, LF]]) [] [] =
     Returned \<lparr>ai_id = Some ''m1'', ai_content = TextContent [], ai_tool_calls = [],
               ai_reasoning_content = None\<rparr> []"
    by (simp add: generateWithAnthropic_def read_all_text drain.simps assemble_def initial_state_def
        formattedToolCalls_def object_entries_def)
  from g1 p g2 show ?thesis
    by blast
qed

section \<open>Assembling the message\<close>






























end
